theory Spec2Isabelle
  imports Main "HOL-Library.Char_ord" "HOL-Library.List_Lexorder"
begin

section \<open>The zabbix report batch job (src/main.go)\<close>

text \<open>
  The program is one Go file: it logs in to a Zabbix front end, downloads the problem
  list as CSV, and renders two HTML tables from it.  Go strings are byte sequences, so
  they are \<^typ>\<open>string\<close> here (a list of 8-bit characters).  A call of \<^verbatim>\<open>os.Exit\<close>
  and a run-time panic both end the process; both are values of the model's result
  types, so every way out of a function is a branch of its definition.
\<close>

subsection \<open>Formatted output: \<^verbatim>\<open>fmt.Fprintf\<close> with the verb \<^verbatim>\<open>%s\<close>\<close>

text \<open>
  Every format string of the renderers uses only literal text and the verb \<^verbatim>\<open>%s\<close> with a
  string operand, which \<^verbatim>\<open>fmt\<close> replaces by the operand's bytes.  A verb with no operand left
  prints \<^verbatim>\<open>%!s(MISSING)\<close>.  Other verbs do not occur in the modelled code and are not
  interpreted.
\<close>

fun Sprintf :: "string \<Rightarrow> string list \<Rightarrow> string" where
  "Sprintf (c # d # format) a =
     (if c = CHR ''%'' \<and> d = CHR ''s''
      then (case a of
              [] \<Rightarrow> ''%!s(MISSING)'' @ Sprintf format []
            | x # xs \<Rightarrow> x @ Sprintf format xs)
      else c # Sprintf (d # format) a)"
| "Sprintf format a = format"

text \<open>\<^verbatim>\<open>fmt.Fprintf(result, format, a...)\<close> on a \<^verbatim>\<open>bytes.Buffer\<close>: the text is appended.\<close>

definition Fprintf :: "string \<Rightarrow> string \<Rightarrow> string list \<Rightarrow> string" where
  "Fprintf result format a = result @ Sprintf format a"

subsection \<open>The CSV reader (\<^verbatim>\<open>encoding/csv\<close> with the settings of \<^verbatim>\<open>csv.NewReader\<close>)\<close>

text \<open>
  The renderers read their input through Go's standard \<^verbatim>\<open>encoding/csv\<close> reader, created by
  \<^verbatim>\<open>csv.NewReader\<close> and never reconfigured: the separator is a comma, there is no comment
  character, \<^verbatim>\<open>LazyQuotes\<close> and \<^verbatim>\<open>TrimLeadingSpace\<close> are off, and \<^verbatim>\<open>FieldsPerRecord\<close> starts
  at 0.  With \<^verbatim>\<open>FieldsPerRecord = 0\<close> the reader takes the number of fields of the first
  record as the number every later record must have; a later record with another number
  of fields is returned together with \<^verbatim>\<open>ErrFieldCount\<close>.  The reader has no notion of a
  minimal number of fields.

  The reader's state is the unread input and \<^verbatim>\<open>FieldsPerRecord\<close>.  The definitions
  follow the library's \<^verbatim>\<open>readLine\<close> and \<^verbatim>\<open>readRecord\<close>; line and column numbers, which only
  appear in error messages, are left out.
\<close>

datatype csv_error = EOF | ErrBareQuote | ErrQuote | ErrFieldCount

record Reader =
  unread :: string
  FieldsPerRecord :: nat

definition NewReader :: "string \<Rightarrow> Reader" where
  "NewReader s = \<lparr>unread = s, FieldsPerRecord = 0\<rparr>"

text \<open>\<^verbatim>\<open>bytes.IndexByte\<close>: the position of the first occurrence, if any.\<close>

fun IndexByte :: "string \<Rightarrow> char \<Rightarrow> nat option" where
  "IndexByte [] c = None"
| "IndexByte (x # xs) c = (if x = c then Some 0 else map_option Suc (IndexByte xs c))"

text \<open>
  \<^verbatim>\<open>bufio.Reader.ReadSlice('\n')\<close>: the bytes up to and including the first newline.  The
  flag is the error \<^verbatim>\<open>io.EOF\<close>, raised when the input ends before a newline is found.
\<close>

fun ReadSlice :: "string \<Rightarrow> (string \<times> bool) \<times> string" where
  "ReadSlice [] = (([], True), [])"
| "ReadSlice (c # cs) =
     (if c = CHR ''\<newline>'' then (([c], False), cs)
      else (case ReadSlice cs of ((l, e), rest) \<Rightarrow> ((c # l, e), rest)))"

definition lengthNL :: "string \<Rightarrow> nat" where
  "lengthNL b = (if b \<noteq> [] \<and> last b = CHR ''\<newline>'' then 1 else 0)"

text \<open>
  \<^verbatim>\<open>readLine\<close>: a last line without newline is not an error (a carriage return at its end
  is dropped), and a line ending in CR LF ends in LF afterwards.  The error flag is
  left only when nothing at all could be read.
\<close>

definition readLine :: "string \<Rightarrow> (string \<times> bool) \<times> string" where
  "readLine inp =
     (case ReadSlice inp of ((line, err), rest) \<Rightarrow>
        let readSize = length line;
            (line, err) =
              (if readSize > 0 \<and> err
               then (if line ! (readSize - 1) = CHR 0x0D then take (readSize - 1) line else line,
                     False)
               else (line, err));
            n = length line;
            line = (if n \<ge> 2 \<and> line ! (n - 2) = CHR 0x0D \<and> line ! (n - 1) = CHR ''\<newline>''
                    then take (n - 2) line @ [CHR ''\<newline>''] else line)
        in ((line, err), rest))"

lemma ReadSlice_append:
  "ReadSlice inp = ((line, e), rest) \<Longrightarrow> inp = line @ rest"
  by (induction inp arbitrary: line e rest) (auto split: if_splits prod.splits)

lemma ReadSlice_found:
  "ReadSlice inp = ((line, False), rest) \<Longrightarrow> line \<noteq> []"
  by (cases inp) (auto split: if_splits prod.splits)

lemma readLine_rest:
  "readLine inp = ((line, e), rest) \<Longrightarrow> rest = snd (ReadSlice inp)"
  unfolding readLine_def Let_def by (simp split: prod.splits if_splits)

lemma readLine_length:
  assumes "readLine inp = ((line, e), rest)"
  shows "length line + length rest \<le> length inp"
proof -
  obtain l e' r where rs: "ReadSlice inp = ((l, e'), r)"
    by (metis surj_pair)
  have r: "rest = r" using readLine_rest[OF assms] rs by simp
  have "length line \<le> length l"
    using assms rs unfolding readLine_def Let_def by (auto split: if_splits)
  with ReadSlice_append[OF rs] r show ?thesis by simp
qed

lemma readLine_consumes:
  assumes "readLine inp = ((line, False), rest)"
  shows "length rest < length inp"
proof -
  obtain l e r where rs: "ReadSlice inp = ((l, e), r)"
    by (metis surj_pair)
  have r: "rest = r" using readLine_rest[OF assms] rs by simp
  have "l \<noteq> []"
  proof (cases e)
    case True
    with assms rs show ?thesis
      unfolding readLine_def Let_def by (auto split: if_splits)
  next
    case False
    with rs show ?thesis by (simp add: ReadSlice_found)
  qed
  with ReadSlice_append[OF rs] r show ?thesis by (cases l) auto
qed

text \<open>
  The first loop of \<^verbatim>\<open>readRecord\<close>: read lines until one is not empty (a line that is only
  its newline is skipped) or the input is exhausted.
\<close>

function nextLine :: "string \<Rightarrow> (string \<times> bool) \<times> string" where
  "nextLine inp =
     (case readLine inp of ((line, errRead), rest) \<Rightarrow>
        if \<not> errRead \<and> length line = lengthNL line then nextLine rest
        else ((line, errRead), rest))"
  by pat_completeness auto
termination
proof (relation "measure length", goal_cases)
  case 1
  show ?case by simp
next
  case (2 inp x1 rest line errRead)
  from 2 have "readLine inp = ((line, False), rest)" by simp
  then have "length rest < length inp" by (rule readLine_consumes)
  then show ?case by simp
qed

lemma IndexByte_less: "IndexByte xs c = Some i \<Longrightarrow> i < length xs"
  by (induction xs arbitrary: i) (auto split: if_splits)

text \<open>
  The loop \<^verbatim>\<open>parseField\<close> of \<^verbatim>\<open>readRecord\<close> and, inside it, the loop over a quoted field.
  \<open>line\<close> is the rest of the current line, \<open>inp\<close> the unread input, \<open>dst\<close> the fields
  completed so far and \<open>buf\<close> the text of the quoted field collected so far.

  A field that does not start with a quote runs to the next comma or to the end of the
  line and must not contain a quote.  A quoted field runs to its closing quote, may hold
  doubled quotes and may continue on the following lines; after the closing quote only a
  comma or the end of the line may follow, and input that ends inside the field is an
  error.
\<close>

function parseField ::
    "string \<Rightarrow> string \<Rightarrow> string list \<Rightarrow> (string list \<times> csv_error option) \<times> string"
  and parseQuoted ::
    "string \<Rightarrow> string \<Rightarrow> string \<Rightarrow> string list \<Rightarrow> (string list \<times> csv_error option) \<times> string"
where
  "parseField line inp dst =
     (if line = [] \<or> hd line \<noteq> CHR 0x22 then
        (case IndexByte line (CHR '','') of
           Some i \<Rightarrow>
             (if IndexByte (take i line) (CHR 0x22) \<noteq> None
              then ((dst, Some ErrBareQuote), inp)
              else parseField (drop (i + 1) line) inp (dst @ [take i line]))
         | None \<Rightarrow>
             (if IndexByte (take (length line - lengthNL line) line) (CHR 0x22) \<noteq> None
              then ((dst, Some ErrBareQuote), inp)
              else ((dst @ [take (length line - lengthNL line) line], None), inp)))
      else parseQuoted (drop 1 line) inp [] dst)"
| "parseQuoted line inp buf dst =
     (case IndexByte line (CHR 0x22) of
        Some i \<Rightarrow>
          (if drop (i + 1) line \<noteq> [] \<and> hd (drop (i + 1) line) = CHR 0x22
             then parseQuoted (drop (i + 2) line) inp (buf @ take i line @ [CHR 0x22]) dst
           else if drop (i + 1) line \<noteq> [] \<and> hd (drop (i + 1) line) = CHR '',''
             then parseField (drop (i + 2) line) inp (dst @ [buf @ take i line])
           else if lengthNL (drop (i + 1) line) = length (drop (i + 1) line)
             then ((dst @ [buf @ take i line], None), inp)
           else ((dst, Some ErrQuote), inp))
      | None \<Rightarrow>
          (if length line > 0
           then parseQuoted (fst (fst (readLine inp))) (snd (readLine inp)) (buf @ line) dst
           else ((dst, Some ErrQuote), inp)))"
  by pat_completeness auto
termination
proof (relation
    "measure (\<lambda>x. case x of Inl (line, inp, dst) \<Rightarrow> length line + length inp
                            | Inr (line, inp, buf, dst) \<Rightarrow> length line + length inp)",
    goal_cases)
  case 1
  show ?case by simp
next
  case (2 line inp dst i)
  then show ?case by (auto dest: IndexByte_less)
next
  case (3 line inp dst)
  then show ?case by (cases line) auto
next
  case (4 line inp buf dst)
  have "length (fst (fst (readLine inp))) + length (snd (readLine inp)) \<le> length inp"
    using readLine_length[of inp] by (metis prod.collapse)
  with 4 show ?case by (cases line) auto
next
  case 5
  then show ?case by (auto dest: IndexByte_less)
next
  case 6
  then show ?case by (auto dest: IndexByte_less)
qed

text \<open>
  \<^verbatim>\<open>readRecord\<close>: at the end of the input the error is \<^verbatim>\<open>io.EOF\<close>.  Otherwise the fields of
  one record are parsed; then \<^verbatim>\<open>FieldsPerRecord\<close> is checked when it is positive and set to
  the number of fields of this record when it is still 0.
\<close>

definition readRecord :: "Reader \<Rightarrow> (string list \<times> csv_error option) \<times> Reader" where
  "readRecord r =
     (case nextLine (unread r) of ((line, errRead), rest) \<Rightarrow>
        if errRead then (([], Some EOF), r\<lparr>unread := rest\<rparr>)
        else (case parseField line rest [] of ((dst, err), rest') \<Rightarrow>
          if FieldsPerRecord r > 0 then
            (if length dst \<noteq> FieldsPerRecord r \<and> err = None
             then ((dst, Some ErrFieldCount), r\<lparr>unread := rest'\<rparr>)
             else ((dst, err), r\<lparr>unread := rest'\<rparr>))
          else ((dst, err), r\<lparr>unread := rest', FieldsPerRecord := length dst\<rparr>)))"

text \<open>\<^verbatim>\<open>csv_reader.Read()\<close>: the record, the error (\<open>None\<close> is Go's \<^verbatim>\<open>nil\<close>), the new state.\<close>

definition Read :: "Reader \<Rightarrow> (string list \<times> csv_error option) \<times> Reader" where
  "Read r = readRecord r"

declare nextLine.simps [simp del]

lemma nextLine_consumes:
  "nextLine inp = ((line, False), rest) \<Longrightarrow> length rest < length inp"
proof (induction inp rule: nextLine.induct)
  case (1 inp)
  obtain l e r where rl: "readLine inp = ((l, e), r)" by (metis surj_pair)
  show ?case
  proof (cases "\<not> e \<and> length l = lengthNL l")
    case True
    with "1.prems" rl have "nextLine r = ((line, False), rest)"
      by (subst (asm) nextLine.simps) simp
    with "1.IH"[OF rl[symmetric] refl] True have "length rest < length r" by simp
    moreover from True rl have "length r < length inp" by (simp add: readLine_consumes)
    ultimately show ?thesis by simp
  next
    case False
    with "1.prems" rl have "readLine inp = ((line, False), rest)"
      by (subst (asm) nextLine.simps) (simp split: if_splits)
    then show ?thesis by (rule readLine_consumes)
  qed
qed

declare parseField.simps [simp del] parseQuoted.simps [simp del]

lemma parse_rest_le:
  "length (snd (parseField line inp dst)) \<le> length inp"
  "length (snd (parseQuoted line inp buf dst)) \<le> length inp"
proof (induction line inp dst and line inp buf dst rule: parseField_parseQuoted.induct)
  case (1 line inp dst)
  show ?case
  proof (cases "IndexByte line (CHR '','')")
    case None
    with 1 show ?thesis by (auto simp add: parseField.simps[of line])
  next
    case (Some i)
    with 1 show ?thesis by (auto simp add: parseField.simps[of line])
  qed
next
  case (2 line inp buf dst)
  have rl: "length (snd (readLine inp)) \<le> length inp"
    using readLine_length[of inp] by (metis add_leE prod.collapse)
  show ?case
  proof (cases "IndexByte line (CHR 0x22)")
    case None
    with 2 rl show ?thesis by (auto simp add: parseQuoted.simps[of line])
  next
    case (Some i)
    with 2 show ?thesis by (auto simp add: parseQuoted.simps[of line])
  qed
qed

lemma Read_consumes:
  assumes "Read r = ((rcd, None), r')"
  shows "length (unread r') < length (unread r)"
proof -
  obtain line e rest where nl: "nextLine (unread r) = ((line, e), rest)"
    by (metis surj_pair)
  obtain dst err rest' where pf: "parseField line rest [] = ((dst, err), rest')"
    by (metis surj_pair)
  from assms nl have e: "\<not> e"
    unfolding Read_def readRecord_def by (auto split: if_splits)
  with nl have "length rest < length (unread r)" by (simp add: nextLine_consumes)
  moreover from parse_rest_le(1)[of line rest "[]"] pf have "length rest' \<le> length rest"
    by simp
  moreover from assms nl pf e have "unread r' = rest'"
    unfolding Read_def readRecord_def by (auto split: if_splits)
  ultimately show ?thesis by simp
qed

subsection \<open>Indexing a record\<close>

text \<open>
  \<^verbatim>\<open>record[i]\<close> on a Go slice panics with \<^verbatim>\<open>index out of range [i] with length n\<close> when
  \<open>i\<close> is not below the length \<open>n\<close>.  The panic is not recovered anywhere in the
  program, so it ends the process.
\<close>

datatype panic = IndexOutOfRange nat nat

definition at :: "string list \<Rightarrow> nat \<Rightarrow> panic + string" where
  "at xs i = (if i < length xs then Inr (xs ! i) else Inl (IndexOutOfRange i (length xs)))"

subsection \<open>The two renderers\<close>

definition header_format :: string where
  "header_format =
     ''<table><tr><td style=\"text-align: center;\">Host</td><td style=\"text-align: center;\">Problem</td><td style=\"text-align: center;\">Time</td><td style=\"text-align: center;\">Duratiom</td></tr>\<newline>''"

definition row_format :: string where
  "row_format = ''<tr><td>%s</td><td>%s</td><td>%s</td><td>%s</td></tr>\<newline>''"

text \<open>
  The body of the loop of \<^verbatim>\<open>extract_active_problems\<close> after the test of \<^verbatim>\<open>err\<close> (lines
  155 to 165): five indexed reads in the order of the source, then the test of the
  status, then the row.  The result is the buffer after the iteration.
\<close>

definition active_body :: "string list \<Rightarrow> string \<Rightarrow> panic + string" where
  "active_body rcd result =
     (case at rcd 3 of Inl p \<Rightarrow> Inl p | Inr status \<Rightarrow>
      case at rcd 4 of Inl p \<Rightarrow> Inl p | Inr host \<Rightarrow>
      case at rcd 5 of Inl p \<Rightarrow> Inl p | Inr problem \<Rightarrow>
      case at rcd 1 of Inl p \<Rightarrow> Inl p | Inr time \<Rightarrow>
      case at rcd 6 of Inl p \<Rightarrow> Inl p | Inr duration \<Rightarrow>
        if status \<noteq> ''PROBLEM'' then Inr result
        else Inr (Fprintf result row_format [host, problem, time, duration]))"

text \<open>
  The loop of \<^verbatim>\<open>extract_active_problems\<close> (lines 148 to 166): any error of \<^verbatim>\<open>Read\<close>, the
  end of the input included, leaves the loop.
\<close>

function active_loop :: "Reader \<Rightarrow> string \<Rightarrow> panic + string" where
  "active_loop csv_reader result =
     (case Read csv_reader of
        ((rcd, Some err), csv_reader') \<Rightarrow> Inr result
      | ((rcd, None), csv_reader') \<Rightarrow>
          (case active_body rcd result of
             Inl p \<Rightarrow> Inl p
           | Inr result' \<Rightarrow> active_loop csv_reader' result'))"
  by pat_completeness auto
termination
proof (relation "measure (\<lambda>(csv_reader, result). length (unread csv_reader))", goal_cases)
  case 1
  show ?case by simp
next
  case (2 csv_reader result x csv_reader' rcd err result')
  then have "Read csv_reader = ((rcd, None), csv_reader')" by simp
  then show ?case by (simp add: Read_consumes)
qed

definition extract_active_problems :: "string \<Rightarrow> panic + string" where
  "extract_active_problems csv_content =
     (let result = [];
          csv_reader = NewReader csv_content;
          result = Fprintf result header_format []
      in case active_loop csv_reader result of
           Inl p \<Rightarrow> Inl p
         | Inr result \<Rightarrow> Inr (Fprintf result ''</table>'' []))"

text \<open>The same for \<^verbatim>\<open>extract_resolved_problems\<close> (lines 174 to 203).\<close>

definition resolved_body :: "string list \<Rightarrow> string \<Rightarrow> panic + string" where
  "resolved_body rcd result =
     (case at rcd 3 of Inl p \<Rightarrow> Inl p | Inr status \<Rightarrow>
      case at rcd 4 of Inl p \<Rightarrow> Inl p | Inr host \<Rightarrow>
      case at rcd 5 of Inl p \<Rightarrow> Inl p | Inr problem \<Rightarrow>
      case at rcd 1 of Inl p \<Rightarrow> Inl p | Inr time \<Rightarrow>
      case at rcd 6 of Inl p \<Rightarrow> Inl p | Inr duration \<Rightarrow>
        if status \<noteq> ''RESOLVED'' then Inr result
        else Inr (Fprintf result row_format [host, problem, time, duration]))"

function resolved_loop :: "Reader \<Rightarrow> string \<Rightarrow> panic + string" where
  "resolved_loop csv_reader result =
     (case Read csv_reader of
        ((rcd, Some err), csv_reader') \<Rightarrow> Inr result
      | ((rcd, None), csv_reader') \<Rightarrow>
          (case resolved_body rcd result of
             Inl p \<Rightarrow> Inl p
           | Inr result' \<Rightarrow> resolved_loop csv_reader' result'))"
  by pat_completeness auto
termination
proof (relation "measure (\<lambda>(csv_reader, result). length (unread csv_reader))", goal_cases)
  case 1
  show ?case by simp
next
  case (2 csv_reader result x csv_reader' rcd err result')
  then have "Read csv_reader = ((rcd, None), csv_reader')" by simp
  then show ?case by (simp add: Read_consumes)
qed

definition extract_resolved_problems :: "string \<Rightarrow> panic + string" where
  "extract_resolved_problems csv_content =
     (let result = [];
          csv_reader = NewReader csv_content;
          result = Fprintf result header_format []
      in case resolved_loop csv_reader result of
           Inl p \<Rightarrow> Inl p
         | Inr result \<Rightarrow> Inr (Fprintf result ''</table>'' []))"

declare active_loop.simps [simp del] resolved_loop.simps [simp del]

subsection \<open>The records of an input, and the table in closed form\<close>

text \<open>
  The records that successive calls of \<^verbatim>\<open>Read\<close> return before the first call that returns
  an error (the end of the input is one).  These are the records the loops of the
  renderers get to see.
\<close>

function records_read :: "Reader \<Rightarrow> string list list" where
  "records_read r =
     (case Read r of
        ((rcd, Some err), r') \<Rightarrow> []
      | ((rcd, None), r') \<Rightarrow> rcd # records_read r')"
  by pat_completeness auto
termination
proof (relation "measure (\<lambda>r. length (unread r))", goal_cases)
  case 1
  show ?case by simp
next
  case (2 r x r' rcd err)
  then have "Read r = ((rcd, None), r')" by simp
  then show ?case by (simp add: Read_consumes)
qed

declare records_read.simps [simp del]

definition csv_records :: "string \<Rightarrow> string list list" where
  "csv_records csv_content = records_read (NewReader csv_content)"

text \<open>
  A body row as the specification describes it: four cells holding the host (index 4),
  the description (index 5), the time (index 1) and the duration (index 6).
\<close>

definition body_row :: "string list \<Rightarrow> string" where
  "body_row rcd =
     ''<tr><td>'' @ rcd ! 4 @ ''</td><td>'' @ rcd ! 5 @ ''</td><td>'' @ rcd ! 1
       @ ''</td><td>'' @ rcd ! 6 @ ''</td></tr>\<newline>''"

text \<open>A header row with the given cell texts, in the markup of the renderers.\<close>

definition header_row :: "string list \<Rightarrow> string" where
  "header_row cells =
     ''<tr>''
       @ concat (map (\<lambda>cell. ''<td style=\"text-align: center;\">'' @ cell @ ''</td>'') cells)
       @ ''</tr>\<newline>''"

text \<open>
  One rendering function with the status as a parameter, which it uses only to select
  the records: the header, one body row for every record whose field 3 is the target, in
  the order of the input, and the closing tag; and the panic of the first record with
  fewer than 7 fields, if there is one.
\<close>

definition render_status_table :: "string \<Rightarrow> string \<Rightarrow> panic + string" where
  "render_status_table csv_content target =
     (case find (\<lambda>rcd. length rcd < 7) (csv_records csv_content) of
        Some rcd \<Rightarrow> Inl (IndexOutOfRange (max 3 (length rcd)) (length rcd))
      | None \<Rightarrow>
          Inr (header_format
               @ concat (map body_row
                   (filter (\<lambda>rcd. rcd ! 3 = target) (csv_records csv_content)))
               @ ''</table>''))"

text \<open>What a loop makes of the records it reads, for a buffer \<open>result\<close> at its start.\<close>

definition scan_result :: "string \<Rightarrow> string list list \<Rightarrow> string \<Rightarrow> panic + string" where
  "scan_result target rcds result =
     (case find (\<lambda>rcd. length rcd < 7) rcds of
        Some rcd \<Rightarrow> Inl (IndexOutOfRange (max 3 (length rcd)) (length rcd))
      | None \<Rightarrow> Inr (result @ concat (map body_row (filter (\<lambda>rcd. rcd ! 3 = target) rcds))))"

text \<open>The two rows of the end-to-end scenario of the specification.\<close>

definition example_csv :: string where
  "example_csv =
     '',2024-01-01T00:00,,PROBLEM,host1,disk full,1h\<newline>,2024-01-01T01:00,,RESOLVED,host2,cpu high,2h''"

text \<open>Inputs with a short row, after a long first row and as the first row.\<close>

definition stop_csv :: string where
  "stop_csv = ''s,t,r,PROBLEM,h1,p1,d1\<newline>s,t,r,PROBLEM\<newline>s,t,r,PROBLEM,h3,p3,d3\<newline>''"

definition short_csv :: string where
  "short_csv = ''s,t,r,PROBLEM\<newline>s,t,r,PROBLEM,h2,p2,d2\<newline>''"

subsection \<open>Feeds written out row by row\<close>

text \<open>
  To speak about the rows of an input text, and not only about the records the reader
  makes of it: a plain field holds no comma, quote, line feed or carriage return; a
  plain row is a list of plain fields whose text, the fields joined by commas, is not
  empty (an empty line is skipped by the reader); the text of a list of rows ends every
  row with a line feed.
\<close>

definition plain_field :: "string \<Rightarrow> bool" where
  "plain_field f =
     list_all (\<lambda>c. c \<noteq> CHR '','' \<and> c \<noteq> CHR 0x22 \<and> c \<noteq> CHR ''\<newline>'' \<and> c \<noteq> CHR 0x0D) f"

fun join_fields :: "string list \<Rightarrow> string" where
  "join_fields [] = []"
| "join_fields [f] = f"
| "join_fields (f # g # fs) = f @ '','' @ join_fields (g # fs)"

definition plain_row :: "string list \<Rightarrow> bool" where
  "plain_row fs = (list_all plain_field fs \<and> join_fields fs \<noteq> [])"

definition csv_text :: "string list list \<Rightarrow> string" where
  "csv_text rows = concat (map (\<lambda>fs. join_fields fs @ ''\<newline>'') rows)"

text \<open>
  The rows of \<^const>\<open>stop_csv\<close>, and a row of ten columns with a given status.
\<close>

definition stop_rows :: "string list list" where
  "stop_rows =
     [[''s'', ''t'', ''r'', ''PROBLEM'', ''h1'', ''p1'', ''d1''],
      [''s'', ''t'', ''r'', ''PROBLEM''],
      [''s'', ''t'', ''r'', ''PROBLEM'', ''h3'', ''p3'', ''d3'']]"

definition wide_row :: "string \<Rightarrow> string list" where
  "wide_row status =
     [''sev'', ''t'', ''rt'', status, ''h'', ''p'', ''d'', ''ack'', ''actions'', ''tags'']"

subsection \<open>Exit codes and the outside world\<close>

definition ExitCodeSuccess :: int where "ExitCodeSuccess = 0"
definition ExitCodeErrorOpeningConfig :: int where "ExitCodeErrorOpeningConfig = 1"
definition ExitCodeErrorDeserializingConfig :: int where "ExitCodeErrorDeserializingConfig = 2"
definition ExitCodeErrorLoginRequestBuilder :: int where "ExitCodeErrorLoginRequestBuilder = 3"
definition ExitCodeErrorLoginRequest :: int where "ExitCodeErrorLoginRequest = 4"
definition ExitCodeErrorWrongCredentials :: int where "ExitCodeErrorWrongCredentials = 5"
definition ExitCodeErrorExportRequestBuilder :: int where "ExitCodeErrorExportRequestBuilder = 6"
definition ExitCodeErrorMissingCookie :: int where "ExitCodeErrorMissingCookie = 7"
definition ExitCodeErrorExportRequest :: int where "ExitCodeErrorExportRequest = 8"

text \<open>
  \<^verbatim>\<open>os.Exit(code)\<close> after a \<^verbatim>\<open>fmt.Printf\<close> of a diagnostic: the value \<open>Exit diagnostic code\<close>.
  The progress lines that the program prints on its way are not part of the model.
\<close>

datatype exit = Exit string int

record Config =
  ZabbixUsername :: string
  ZabbixPassword :: string
  ZabbixUrl :: string

definition config_filename :: string where
  "config_filename = ''config.yaml''"

record Cookie =
  Name :: string
  Value :: string

record Request =
  Method :: string
  URL :: string
  Header :: "(string \<times> string) list"
  Body :: string
  SentCookies :: "Cookie list"

record Response =
  StatusCode :: int
  Cookies :: "Cookie list"
  ResponseBody :: string

text \<open>
  \<^verbatim>\<open>client.CheckRedirect\<close>: the login client installs a function that always answers
  \<^verbatim>\<open>http.ErrUseLastResponse\<close>, so that \<^verbatim>\<open>Do\<close> returns the first response; a client without it
  follows redirects.
\<close>

datatype redirect_policy = FollowRedirects | UseLastResponse

record Client =
  CheckRedirect :: redirect_policy

text \<open>
  What the program cannot decide by itself is a parameter: the file system, the YAML
  decoder, the validity of a URL (the only way \<^verbatim>\<open>http.NewRequest\<close> fails for the constant
  methods used here) and the network.  A Go \<^verbatim>\<open>error\<close> is its message.
\<close>

record World =
  os_ReadFile :: "string \<Rightarrow> string + string"
  yaml_Unmarshal :: "string \<Rightarrow> string + Config"
  url_Parse_error :: "string \<Rightarrow> string option"
  client_Do :: "Client \<Rightarrow> Request \<Rightarrow> string + Response"

definition NewRequest :: "World \<Rightarrow> string \<Rightarrow> string \<Rightarrow> string \<Rightarrow> string + Request" where
  "NewRequest w method url body =
     (case url_Parse_error w url of
        Some err \<Rightarrow> Inl err
      | None \<Rightarrow> Inr \<lparr>Method = method, URL = url, Header = [], Body = body, SentCookies = []\<rparr>)"

text \<open>\<^verbatim>\<open>request.Header.Set(key, value)\<close> and \<^verbatim>\<open>request.AddCookie(cookie)\<close>.\<close>

definition Header_Set :: "Request \<Rightarrow> string \<Rightarrow> string \<Rightarrow> Request" where
  "Header_Set request key val =
     request\<lparr>Header := filter (\<lambda>kv. fst kv \<noteq> key) (Header request) @ [(key, val)]\<rparr>"

definition AddCookie :: "Request \<Rightarrow> Cookie \<Rightarrow> Request" where
  "AddCookie request cookie = request\<lparr>SentCookies := SentCookies request @ [cookie]\<rparr>"

definition StatusFound :: int where "StatusFound = 302"

subsection \<open>\<^verbatim>\<open>load_config\<close>\<close>

definition load_config :: "World \<Rightarrow> exit + Config" where
  "load_config w =
     (case os_ReadFile w config_filename of
        Inl err \<Rightarrow>
          Inl (Exit (Sprintf ''failed to open %s, error: %s\<newline>'' [config_filename, err])
                 ExitCodeErrorOpeningConfig)
      | Inr config_content \<Rightarrow>
          (case yaml_Unmarshal w config_content of
             Inl err \<Rightarrow>
               Inl (Exit (Sprintf ''failed to deserialize the config %s, error: %s\<newline>''
                            [config_filename, err])
                      ExitCodeErrorDeserializingConfig)
           | Inr config \<Rightarrow> Inr config))"

subsection \<open>Form encoding (\<^verbatim>\<open>net/url\<close>)\<close>

text \<open>
  \<^verbatim>\<open>url.QueryEscape\<close>: letters, digits and the four marks \<^verbatim>\<open>-_.~\<close> are kept, a space
  becomes \<^verbatim>\<open>+\<close>, every other byte becomes \<^verbatim>\<open>%\<close> and its two upper-case hexadecimal digits.
\<close>

definition upperhex :: string where
  "upperhex = ''0123456789ABCDEF''"

definition shouldEscape :: "char \<Rightarrow> bool" where
  "shouldEscape c =
     (if (CHR ''a'' \<le> c \<and> c \<le> CHR ''z'') \<or> (CHR ''A'' \<le> c \<and> c \<le> CHR ''Z'')
         \<or> (CHR ''0'' \<le> c \<and> c \<le> CHR ''9'') then False
      else if c = CHR ''-'' \<or> c = CHR ''_'' \<or> c = CHR ''.'' \<or> c = CHR ''~'' then False
      else True)"

definition escape_byte :: "char \<Rightarrow> string" where
  "escape_byte c =
     (if c = CHR '' '' then ''+''
      else if shouldEscape c
        then [CHR ''%'', upperhex ! (of_char c div 16), upperhex ! (of_char c mod 16)]
      else [c])"

definition QueryEscape :: "string \<Rightarrow> string" where
  "QueryEscape s = concat (map escape_byte s)"

text \<open>
  \<^verbatim>\<open>url.Values\<close> is a map from a key to a list of values; \<^verbatim>\<open>Set\<close> replaces the list of a
  key by one value.  \<^verbatim>\<open>Encode\<close> walks the keys in sorted order and writes
  \<^verbatim>\<open>key=value\<close> pairs joined by \<^verbatim>\<open>&\<close>, escaping every key and every value with
  \<^verbatim>\<open>QueryEscape\<close>.
\<close>

type_synonym Values = "(string \<times> string list) list"

fun Values_Set :: "Values \<Rightarrow> string \<Rightarrow> string \<Rightarrow> Values" where
  "Values_Set [] key val = [(key, [val])]"
| "Values_Set ((k, vs) # form) key val =
     (if k = key then (key, [val]) # form else (k, vs) # Values_Set form key val)"

definition Values_Encode :: "Values \<Rightarrow> string" where
  "Values_Encode v =
     foldl (\<lambda>buf k.
        foldl (\<lambda>buf val.
            (if buf \<noteq> [] then buf @ ''&'' else buf) @ QueryEscape k @ ''='' @ QueryEscape val)
          buf (case map_of v k of None \<Rightarrow> [] | Some vs \<Rightarrow> vs))
       [] (sort (map fst v))"

subsection \<open>\<^verbatim>\<open>zabbix_login\<close>\<close>

text \<open>
  Lines 64 to 71: the user name and the password are escaped with \<^verbatim>\<open>url.QueryEscape\<close>, put
  into the form, and the form is encoded with \<^verbatim>\<open>form.Encode()\<close>, which escapes every value
  once more.
\<close>

definition login_form_body :: "string \<Rightarrow> string \<Rightarrow> string" where
  "login_form_body uname pass =
     (let uname = QueryEscape uname;
          pass = QueryEscape pass;
          form = [];
          form = Values_Set form ''name'' uname;
          form = Values_Set form ''password'' pass;
          form = Values_Set form ''enter'' ''Sign in''
      in Values_Encode form)"

text \<open>Lines 105 to 109: the first cookie named \<^verbatim>\<open>zbx_session\<close>.\<close>

fun cookie_loop :: "Cookie list \<Rightarrow> Cookie option" where
  "cookie_loop [] = None"
| "cookie_loop (cookie # cookies) =
     (if Name cookie = ''zbx_session'' then Some cookie else cookie_loop cookies)"

definition zabbix_login :: "World \<Rightarrow> string \<Rightarrow> string \<Rightarrow> string \<Rightarrow> exit + Cookie" where
  "zabbix_login w zabbix_url uname pass =
     (let form_body = login_form_body uname pass in
      case NewRequest w ''POST'' (zabbix_url @ ''/index.php'') form_body of
        Inl err \<Rightarrow>
          Inl (Exit (Sprintf ''failed to build the login request, error: %s\<newline>'' [err])
                 ExitCodeErrorLoginRequestBuilder)
      | Inr request \<Rightarrow>
          (let request = Header_Set request ''Content-Type'' ''application/x-www-form-urlencoded'';
               client = \<lparr>CheckRedirect = UseLastResponse\<rparr>
           in case client_Do w client request of
                Inl err \<Rightarrow>
                  Inl (Exit (Sprintf ''failed to login, error: %s\<newline>'' [err])
                         ExitCodeErrorLoginRequest)
              | Inr response \<Rightarrow>
                  if StatusCode response \<noteq> StatusFound
                  then Inl (Exit (Sprintf
                         ''wrong credentials, server responded didn't return the session cookie\<newline>'' [])
                         ExitCodeErrorWrongCredentials)
                  else (case cookie_loop (Cookies response) of
                          Some cookie \<Rightarrow> Inr cookie
                        | None \<Rightarrow>
                            Inl (Exit (Sprintf ''server didn't return a session cookie\<newline>'' [])
                                   ExitCodeErrorMissingCookie))))"

subsection \<open>\<^verbatim>\<open>zabbix_export_csv\<close>\<close>

text \<open>The error of \<^verbatim>\<open>io.ReadAll\<close> is dropped by the source; the body is what was read.\<close>

definition zabbix_export_csv :: "World \<Rightarrow> string \<Rightarrow> Cookie \<Rightarrow> exit + string" where
  "zabbix_export_csv w zabbix_url session_cookie =
     (case NewRequest w ''GET'' (zabbix_url @ ''/zabbix.php?action=problem.view.csv'') [] of
        Inl err \<Rightarrow>
          Inl (Exit (Sprintf ''failed to build the export CSV request, error: %s\<newline>'' [err])
                 ExitCodeErrorExportRequestBuilder)
      | Inr request \<Rightarrow>
          (let request = AddCookie request session_cookie;
               client = \<lparr>CheckRedirect = FollowRedirects\<rparr>
           in case client_Do w client request of
                Inl err \<Rightarrow>
                  Inl (Exit (Sprintf ''failed to export the CSV, error: %s\<newline>'' [err])
                         ExitCodeErrorExportRequest)
              | Inr response \<Rightarrow> Inr (ResponseBody response)))"

subsection \<open>\<^verbatim>\<open>main\<close>\<close>

text \<open>
  The process ends in one of three ways: by \<^verbatim>\<open>os.Exit\<close> in one of the stages, by a panic
  in a renderer, or by the return of \<^verbatim>\<open>main\<close>, whose exit status is 0; the report
  document is then the value.  Writing the document to its file, whose errors the source
  ignores, is not modelled.
\<close>

datatype outcome = Exited exit | Panicked panic | Returned string

definition style :: string where
  "style = ''<style>\<newline>    table {\<newline>        border: 1px solid;\<newline>        border-color: black;\<newline>        border-collapse: collapse;\<newline>    }\<newline>\<newline>    tr {\<newline>        border: 1px solid;\<newline>        border-color: black;\<newline>        border-collapse: collapse;\<newline>    }\<newline>\<newline>    td {\<newline>        border: 1px solid;\<newline>        border-color: black;\<newline>        border-collapse: collapse;\<newline>    }\<newline></style>''"

definition main :: "World \<Rightarrow> outcome" where
  "main w =
     (case load_config w of
        Inl e \<Rightarrow> Exited e
      | Inr config \<Rightarrow>
     (case zabbix_login w (ZabbixUrl config) (ZabbixUsername config) (ZabbixPassword config) of
        Inl e \<Rightarrow> Exited e
      | Inr session_cookie \<Rightarrow>
     (case zabbix_export_csv w (ZabbixUrl config) session_cookie of
        Inl e \<Rightarrow> Exited e
      | Inr raw_csv \<Rightarrow>
     (case extract_active_problems raw_csv of
        Inl p \<Rightarrow> Panicked p
      | Inr html_problem_table \<Rightarrow>
     (case extract_resolved_problems raw_csv of
        Inl p \<Rightarrow> Panicked p
      | Inr html_resolved_table \<Rightarrow>
          (let email_html = [];
               email_html = Fprintf email_html ''%s'' [style];
               email_html = Fprintf email_html
                 ''<p style=\"text-align: center\">Active Problems<p>%s<p style=\"text-align: center\">Resolved Problems</p>%s\<newline>''
                 [html_problem_table, html_resolved_table]
           in Returned email_html))))))"

text \<open>The exit status of the process, where the program determines it.\<close>

fun exit_status :: "outcome \<Rightarrow> int option" where
  "exit_status (Exited (Exit diagnostic code)) = Some code"
| "exit_status (Returned document) = Some ExitCodeSuccess"
| "exit_status (Panicked p) = None"

subsection \<open>The requests the program sends, and three worlds\<close>

text \<open>
  The request that \<^verbatim>\<open>zabbix_login\<close> hands to \<^verbatim>\<open>client.Do\<close> when the URL is valid, the request of
  \<^verbatim>\<open>zabbix_export_csv\<close>, and the two clients.
\<close>

definition login_request :: "string \<Rightarrow> string \<Rightarrow> string \<Rightarrow> Request" where
  "login_request zabbix_url uname pass =
     \<lparr>Method = ''POST'', URL = zabbix_url @ ''/index.php'',
      Header = [(''Content-Type'', ''application/x-www-form-urlencoded'')],
      Body = login_form_body uname pass, SentCookies = []\<rparr>"

definition export_request :: "string \<Rightarrow> Cookie \<Rightarrow> Request" where
  "export_request zabbix_url session_cookie =
     \<lparr>Method = ''GET'', URL = zabbix_url @ ''/zabbix.php?action=problem.view.csv'',
      Header = [], Body = [], SentCookies = [session_cookie]\<rparr>"

definition login_client :: Client where
  "login_client = \<lparr>CheckRedirect = UseLastResponse\<rparr>"

definition export_client :: Client where
  "export_client = \<lparr>CheckRedirect = FollowRedirects\<rparr>"

text \<open>
  Three worlds to run the program in.  In all of them the configuration of the
  end-to-end scenario of the specification is read.  In the first the server answers the
  login with 200 and an error page; in the second with 302 and three cookies, two of
  them named \<^verbatim>\<open>zbx_session\<close>, and the export with the CSV of the scenario; in the third with
  302 and no session cookie.
\<close>

definition world_200 :: World where
  "world_200 =
     \<lparr>os_ReadFile = (\<lambda>name. Inr []),
      yaml_Unmarshal = (\<lambda>content. Inr \<lparr>ZabbixUsername = ''alice'',
         ZabbixPassword = ''p@ss word'', ZabbixUrl = ''http://zbx.example''\<rparr>),
      url_Parse_error = (\<lambda>url. None),
      client_Do = (\<lambda>client request.
         Inr \<lparr>StatusCode = 200, Cookies = [], ResponseBody = ''<html>error</html>''\<rparr>)\<rparr>"

definition world_302 :: World where
  "world_302 =
     \<lparr>os_ReadFile = (\<lambda>name. Inr []),
      yaml_Unmarshal = (\<lambda>content. Inr \<lparr>ZabbixUsername = ''alice'',
         ZabbixPassword = ''p@ss word'', ZabbixUrl = ''http://zbx.example''\<rparr>),
      url_Parse_error = (\<lambda>url. None),
      client_Do = (\<lambda>client request.
         if Method request = ''POST''
         then Inr \<lparr>StatusCode = 302,
                   Cookies = [\<lparr>Name = ''PHPSESSID'', Value = ''x''\<rparr>,
                              \<lparr>Name = ''zbx_session'', Value = ''abc123''\<rparr>,
                              \<lparr>Name = ''zbx_session'', Value = ''later''\<rparr>],
                   ResponseBody = []\<rparr>
         else Inr \<lparr>StatusCode = 200, Cookies = [], ResponseBody = example_csv\<rparr>)\<rparr>"

definition world_no_cookie :: World where
  "world_no_cookie =
     \<lparr>os_ReadFile = (\<lambda>name. Inr []),
      yaml_Unmarshal = (\<lambda>content. Inr \<lparr>ZabbixUsername = ''alice'',
         ZabbixPassword = ''p@ss word'', ZabbixUrl = ''http://zbx.example''\<rparr>),
      url_Parse_error = (\<lambda>url. None),
      client_Do = (\<lambda>client request.
         Inr \<lparr>StatusCode = 302, Cookies = [\<lparr>Name = ''PHPSESSID'', Value = ''x''\<rparr>],
              ResponseBody = []\<rparr>)\<rparr>"

subsection \<open>Decoding a form body\<close>

text \<open>
  What the receiver of an \<^verbatim>\<open>application/x-www-form-urlencoded\<close> body does, the inverse of
  \<^verbatim>\<open>QueryEscape\<close> and of the joining done by \<^verbatim>\<open>Encode\<close>: the body is split at every \<^verbatim>\<open>&\<close>,
  every part at its first \<^verbatim>\<open>=\<close>, and in keys and values \<^verbatim>\<open>+\<close> becomes a space and
  \<^verbatim>\<open>%XX\<close> the byte with the hexadecimal code \<^verbatim>\<open>XX\<close>.  This is not code of the program; it
  states what "the server decodes" means.
\<close>

definition ishex :: "char \<Rightarrow> bool" where
  "ishex c = ((CHR ''0'' \<le> c \<and> c \<le> CHR ''9'') \<or> (CHR ''a'' \<le> c \<and> c \<le> CHR ''f'')
              \<or> (CHR ''A'' \<le> c \<and> c \<le> CHR ''F''))"

definition unhex :: "char \<Rightarrow> nat" where
  "unhex c =
     (if CHR ''0'' \<le> c \<and> c \<le> CHR ''9'' then of_char c - of_char (CHR ''0'')
      else if CHR ''a'' \<le> c \<and> c \<le> CHR ''f'' then of_char c - of_char (CHR ''a'') + 10
      else if CHR ''A'' \<le> c \<and> c \<le> CHR ''F'' then of_char c - of_char (CHR ''A'') + 10
      else 0)"

fun QueryUnescape :: "string \<Rightarrow> string option" where
  "QueryUnescape [] = Some []"
| "QueryUnescape (c # s) =
     (if c = CHR ''%'' then
        (case s of
           a # b # s' \<Rightarrow>
             if ishex a \<and> ishex b
             then map_option ((#) (char_of (unhex a * 16 + unhex b))) (QueryUnescape s')
             else None
         | _ \<Rightarrow> None)
      else if c = CHR ''+'' then map_option ((#) (CHR '' '')) (QueryUnescape s)
      else map_option ((#) c) (QueryUnescape s))"

fun Cut :: "char \<Rightarrow> string \<Rightarrow> string \<times> string" where
  "Cut sep [] = ([], [])"
| "Cut sep (c # s) = (if c = sep then ([], s) else (case Cut sep s of (b, a) \<Rightarrow> (c # b, a)))"

fun Split :: "char \<Rightarrow> string \<Rightarrow> string list" where
  "Split sep [] = [[]]"
| "Split sep (c # s) =
     (if c = sep then [] # Split sep s
      else (case Split sep s of x # xs \<Rightarrow> (c # x) # xs | [] \<Rightarrow> [[c]]))"

fun decode_pairs :: "string list \<Rightarrow> (string \<times> string) list option" where
  "decode_pairs [] = Some []"
| "decode_pairs (p # ps) =
     (case Cut (CHR ''='') p of (k, v) \<Rightarrow>
        (case (QueryUnescape k, QueryUnescape v, decode_pairs ps) of
           (Some k', Some v', Some rest) \<Rightarrow> Some ((k', v') # rest)
         | _ \<Rightarrow> None))"

definition decode_form :: "string \<Rightarrow> (string \<times> string) list option" where
  "decode_form body = decode_pairs (filter (\<lambda>p. p \<noteq> []) (Split (CHR ''&'') body))"

section \<open>Properties of the renderers\<close>

lemma Sprintf_header: "Sprintf header_format [] = header_format"
  by (simp add: header_format_def)

lemma Sprintf_row:
  "Sprintf row_format [a, b, c, d] =
     ''<tr><td>'' @ a @ ''</td><td>'' @ b @ ''</td><td>'' @ c @ ''</td><td>'' @ d
       @ ''</td></tr>\<newline>''"
  by (simp add: row_format_def)

lemma active_body_short:
  "length rcd < 7 \<Longrightarrow>
     active_body rcd result = Inl (IndexOutOfRange (max 3 (length rcd)) (length rcd))"
  unfolding active_body_def at_def by (auto simp: max_def)

lemma active_body_long:
  "7 \<le> length rcd \<Longrightarrow>
     active_body rcd result =
       Inr (if rcd ! 3 = ''PROBLEM'' then result @ body_row rcd else result)"
  unfolding active_body_def at_def Fprintf_def by (simp add: Sprintf_row body_row_def)

lemma resolved_body_short:
  "length rcd < 7 \<Longrightarrow>
     resolved_body rcd result = Inl (IndexOutOfRange (max 3 (length rcd)) (length rcd))"
  unfolding resolved_body_def at_def by (auto simp: max_def)

lemma resolved_body_long:
  "7 \<le> length rcd \<Longrightarrow>
     resolved_body rcd result =
       Inr (if rcd ! 3 = ''RESOLVED'' then result @ body_row rcd else result)"
  unfolding resolved_body_def at_def Fprintf_def by (simp add: Sprintf_row body_row_def)

lemma active_loop_closed:
  "active_loop csv_reader result = scan_result ''PROBLEM'' (records_read csv_reader) result"
proof (induction csv_reader result rule: active_loop.induct)
  case (1 csv_reader result)
  obtain rcd e r' where rd: "Read csv_reader = ((rcd, e), r')" by (metis surj_pair)
  show ?case
  proof (cases e)
    case (Some err)
    with rd show ?thesis
      by (simp add: active_loop.simps[of csv_reader] records_read.simps[of csv_reader]
            scan_result_def)
  next
    case None
    show ?thesis
    proof (cases "length rcd < 7")
      case True
      with rd None show ?thesis
        by (simp add: active_loop.simps[of csv_reader] records_read.simps[of csv_reader]
              scan_result_def active_body_short)
    next
      case False
      then have long: "7 \<le> length rcd" by simp
      note IH = "1.IH"[OF rd[symmetric] refl None active_body_long[OF long]]
      show ?thesis using rd None long False IH
        by (simp add: active_loop.simps[of csv_reader] records_read.simps[of csv_reader]
              scan_result_def active_body_long split: option.splits)
    qed
  qed
qed

lemma resolved_loop_closed:
  "resolved_loop csv_reader result = scan_result ''RESOLVED'' (records_read csv_reader) result"
proof (induction csv_reader result rule: resolved_loop.induct)
  case (1 csv_reader result)
  obtain rcd e r' where rd: "Read csv_reader = ((rcd, e), r')" by (metis surj_pair)
  show ?case
  proof (cases e)
    case (Some err)
    with rd show ?thesis
      by (simp add: resolved_loop.simps[of csv_reader] records_read.simps[of csv_reader]
            scan_result_def)
  next
    case None
    show ?thesis
    proof (cases "length rcd < 7")
      case True
      with rd None show ?thesis
        by (simp add: resolved_loop.simps[of csv_reader] records_read.simps[of csv_reader]
              scan_result_def resolved_body_short)
    next
      case False
      then have long: "7 \<le> length rcd" by simp
      note IH = "1.IH"[OF rd[symmetric] refl None resolved_body_long[OF long]]
      show ?thesis using rd None long False IH
        by (simp add: resolved_loop.simps[of csv_reader] records_read.simps[of csv_reader]
              scan_result_def resolved_body_long split: option.splits)
    qed
  qed
qed

lemma extract_active_closed:
  "extract_active_problems csv_content = render_status_table csv_content ''PROBLEM''"
  unfolding extract_active_problems_def render_status_table_def Let_def csv_records_def
  by (simp add: active_loop_closed scan_result_def Fprintf_def Sprintf_header
        split: option.splits)

lemma extract_resolved_closed:
  "extract_resolved_problems csv_content = render_status_table csv_content ''RESOLVED''"
  unfolding extract_resolved_problems_def render_status_table_def Let_def csv_records_def
  by (simp add: resolved_loop_closed scan_result_def Fprintf_def Sprintf_header
        split: option.splits)

lemma example_records:
  "csv_records example_csv =
     [[[], ''2024-01-01T00:00'', [], ''PROBLEM'', ''host1'', ''disk full'', ''1h''],
      [[], ''2024-01-01T01:00'', [], ''RESOLVED'', ''host2'', ''cpu high'', ''2h'']]"
  by code_simp

text \<open>
  C1, as the code has it.  A record that \<^verbatim>\<open>Read\<close> returns with fewer than 7 fields makes
  the loop body panic, so the property holds for the inputs in which every record read
  has at least 7 fields: the active-problem table then holds the header, exactly one body
  row for every record whose field 3 is \<^verbatim>\<open>PROBLEM\<close>, in the order of the input, and nothing
  for the other records; the resolved-problem table does the same for \<^verbatim>\<open>RESOLVED\<close>.
\<close>

theorem rows_are_the_matching_records:
  assumes "\<forall>rcd \<in> set (csv_records csv_content). 7 \<le> length rcd"
  shows "extract_active_problems csv_content =
           Inr (header_format
                @ concat (map body_row
                    (filter (\<lambda>rcd. rcd ! 3 = ''PROBLEM'') (csv_records csv_content)))
                @ ''</table>'')
       \<and> extract_resolved_problems csv_content =
           Inr (header_format
                @ concat (map body_row
                    (filter (\<lambda>rcd. rcd ! 3 = ''RESOLVED'') (csv_records csv_content)))
                @ ''</table>'')"
proof -
  from assms have "find (\<lambda>rcd. length rcd < 7) (csv_records csv_content) = None"
    by (auto simp: find_None_iff)
  then show ?thesis
    by (simp add: extract_active_closed extract_resolved_closed render_status_table_def)
qed

theorem rows_are_the_matching_records_witness:
  "list_all (\<lambda>rcd. 7 \<le> length rcd) (csv_records example_csv)
   \<and> extract_active_problems example_csv =
       Inr (header_format
            @ ''<tr><td>host1</td><td>disk full</td><td>2024-01-01T00:00</td><td>1h</td></tr>\<newline></table>'')
   \<and> extract_resolved_problems example_csv =
       Inr (header_format
            @ ''<tr><td>host2</td><td>cpu high</td><td>2024-01-01T01:00</td><td>2h</td></tr>\<newline></table>'')"
proof -
  have h: "\<forall>rcd \<in> set (csv_records example_csv). 7 \<le> length rcd"
    by (simp add: example_records)
  from rows_are_the_matching_records[OF h] h show ?thesis
    by (simp add: example_records body_row_def)
qed

text \<open>
  C1 as stated fails: the only record of this input has the status \<^verbatim>\<open>PROBLEM\<close> and six
  fields.  The reader returns it without error, no row is emitted for it, and the read
  of \<^verbatim>\<open>record[6]\<close> panics.
\<close>

theorem problem_record_without_row_counterexample:
  "extract_active_problems ''sev,time,rtime,PROBLEM,host1,disk full''
     = Inl (IndexOutOfRange 6 6)"
  by code_simp

lemma parse_success_nonempty:
  "snd (fst (parseField line inp dst)) = None \<Longrightarrow> fst (fst (parseField line inp dst)) \<noteq> []"
  "snd (fst (parseQuoted line inp buf dst)) = None \<Longrightarrow>
     fst (fst (parseQuoted line inp buf dst)) \<noteq> []"
proof (induction line inp dst and line inp buf dst rule: parseField_parseQuoted.induct)
  case (1 line inp dst)
  show ?case
  proof (cases "IndexByte line (CHR '','')")
    case None
    with 1 show ?thesis
      by (auto simp add: parseField.simps[of line] split: if_splits)
  next
    case (Some i)
    with 1 show ?thesis
      by (auto simp add: parseField.simps[of line] split: if_splits)
  qed
next
  case (2 line inp buf dst)
  show ?case
  proof (cases "IndexByte line (CHR 0x22)")
    case None
    with 2 show ?thesis
      by (auto simp add: parseQuoted.simps[of line] split: if_splits)
  next
    case (Some i)
    with 2 show ?thesis
      by (auto simp add: parseQuoted.simps[of line] split: if_splits)
  qed
qed

lemma Read_first:
  assumes "Read r = ((rcd, None), r')" and "FieldsPerRecord r = 0"
  shows "FieldsPerRecord r' = length rcd \<and> rcd \<noteq> []"
proof -
  obtain line e rest where nl: "nextLine (unread r) = ((line, e), rest)"
    by (metis surj_pair)
  obtain dst err rest' where pf: "parseField line rest [] = ((dst, err), rest')"
    by (metis surj_pair)
  from assms nl pf have *: "\<not> e" "dst = rcd" "err = None" "FieldsPerRecord r' = length dst"
    unfolding Read_def readRecord_def by (auto split: if_splits)
  from parse_success_nonempty(1)[of line rest "[]"] pf * have "rcd \<noteq> []" by simp
  with * show ?thesis by simp
qed

lemma Read_later:
  assumes "Read r = ((rcd, None), r')" and "0 < FieldsPerRecord r"
  shows "length rcd = FieldsPerRecord r \<and> FieldsPerRecord r' = FieldsPerRecord r"
proof -
  obtain line e rest where nl: "nextLine (unread r) = ((line, e), rest)"
    by (metis surj_pair)
  obtain dst err rest' where pf: "parseField line rest [] = ((dst, err), rest')"
    by (metis surj_pair)
  from assms nl pf show ?thesis
    unfolding Read_def readRecord_def by (auto split: if_splits)
qed

lemma records_read_fixed:
  "0 < FieldsPerRecord r \<Longrightarrow> \<forall>rcd \<in> set (records_read r). length rcd = FieldsPerRecord r"
proof (induction r rule: records_read.induct)
  case (1 r)
  obtain rcd e r' where rd: "Read r = ((rcd, e), r')" by (metis surj_pair)
  show ?case
  proof (cases e)
    case (Some err)
    with rd show ?thesis by (simp add: records_read.simps[of r])
  next
    case None
    from Read_later[OF rd[unfolded None] "1.prems"]
    have len: "length rcd = FieldsPerRecord r" and f: "FieldsPerRecord r' = FieldsPerRecord r"
      by simp_all
    from "1.IH"[OF rd[symmetric] refl None] f "1.prems"
    have "\<forall>x \<in> set (records_read r'). length x = FieldsPerRecord r" by simp
    with rd None len show ?thesis by (simp add: records_read.simps[of r])
  qed
qed

lemma csv_records_same_length:
  "\<forall>rcd \<in> set (csv_records csv_content). length rcd = length (hd (csv_records csv_content))"
proof -
  let ?r = "NewReader csv_content"
  obtain rcd e r' where rd: "Read ?r = ((rcd, e), r')" by (metis surj_pair)
  show ?thesis
  proof (cases e)
    case (Some err)
    with rd show ?thesis by (simp add: csv_records_def records_read.simps[of ?r])
  next
    case None
    have "FieldsPerRecord ?r = 0" by (simp add: NewReader_def)
    from Read_first[OF rd[unfolded None] this]
    have f: "FieldsPerRecord r' = length rcd" and ne: "rcd \<noteq> []" by simp_all
    then have "0 < FieldsPerRecord r'" by simp
    from records_read_fixed[OF this] f
    have "\<forall>x \<in> set (records_read r'). length x = length rcd" by simp
    with rd None show ?thesis by (simp add: csv_records_def records_read.simps[of ?r])
  qed
qed

lemma find_short_first:
  assumes "\<forall>rcd \<in> set rcds. length rcd = length (hd rcds)"
  shows "find (\<lambda>rcd. length rcd < 7) rcds =
           (if rcds \<noteq> [] \<and> length (hd rcds) < 7 then Some (hd rcds) else None)"
proof (cases rcds)
  case Nil
  then show ?thesis by simp
next
  case (Cons a as)
  with assms show ?thesis by (auto simp: find_None_iff)
qed

text \<open>
  Two inputs: in the first the second row is short after a first row of 7 fields (the
  scan ends there and the third row is not rendered); in the second the first row is
  short.
\<close>

lemma stop_records: "csv_records stop_csv = [[''s'', ''t'', ''r'', ''PROBLEM'', ''h1'', ''p1'', ''d1'']]"
  by code_simp

lemma short_records: "csv_records short_csv = [[''s'', ''t'', ''r'', ''PROBLEM'']]"
  by code_simp


lemma Read_at_end: "unread r = [] \<Longrightarrow> fst (Read r) = ([], Some EOF)"
  by (simp add: Read_def readRecord_def nextLine.simps[of "[]"] readLine_def)

lemma records_read_at_end: "unread r = [] \<Longrightarrow> records_read r = []"
  using Read_at_end[of r] by (auto simp add: records_read.simps[of r] split: prod.splits)

lemma plain_row_nonempty: "plain_row fs \<Longrightarrow> fs \<noteq> []"
  by (auto simp: plain_row_def)

lemma IndexByte_None: "c \<notin> set xs \<Longrightarrow> IndexByte xs c = None"
  by (induction xs) auto

lemma IndexByte_first: "c \<notin> set a \<Longrightarrow> IndexByte (a @ c # b) c = Some (length a)"
  by (induction a) auto

lemma IndexByte_mem: "c \<in> set xs \<Longrightarrow> IndexByte xs c \<noteq> None"
  by (induction xs) auto

lemma ReadSlice_line:
  "CHR ''\<newline>'' \<notin> set l \<Longrightarrow> ReadSlice (l @ CHR ''\<newline>'' # rest) = ((l @ [CHR ''\<newline>''], False), rest)"
  by (induction l) auto

lemma readLine_line:
  assumes "CHR ''\<newline>'' \<notin> set l" and "CHR 0x0D \<notin> set l"
  shows "readLine (l @ CHR ''\<newline>'' # rest) = ((l @ [CHR ''\<newline>''], False), rest)"
proof -
  have "(l @ [CHR ''\<newline>'']) ! (length l - Suc 0) \<noteq> CHR 0x0D" if "Suc 0 \<le> length l"
  proof -
    from that have "length l - Suc 0 < length l" by simp
    then have "(l @ [CHR ''\<newline>'']) ! (length l - Suc 0) \<in> set l"
      by (simp add: nth_append)
    with assms(2) show ?thesis by auto
  qed
  then show ?thesis
    unfolding readLine_def ReadSlice_line[OF assms(1)] Let_def by auto
qed

lemma nextLine_line:
  assumes "CHR ''\<newline>'' \<notin> set l" and "CHR 0x0D \<notin> set l" and "l \<noteq> []"
  shows "nextLine (l @ CHR ''\<newline>'' # rest) = ((l @ [CHR ''\<newline>''], False), rest)"
  using assms(3)
  by (subst nextLine.simps) (simp add: readLine_line[OF assms(1,2)] lengthNL_def)

lemma plain_field_set:
  "plain_field f \<Longrightarrow> CHR '','' \<notin> set f \<and> CHR 0x22 \<notin> set f \<and> CHR ''\<newline>'' \<notin> set f \<and> CHR 0x0D \<notin> set f"
  by (auto simp: plain_field_def list_all_iff)

lemma join_fields_set:
  "list_all plain_field fs \<Longrightarrow> CHR ''\<newline>'' \<notin> set (join_fields fs) \<and> CHR 0x0D \<notin> set (join_fields fs)"
  by (induction fs rule: join_fields.induct) (auto dest: plain_field_set)

lemma parseField_plain:
  "list_all plain_field fs \<Longrightarrow> fs \<noteq> [] \<Longrightarrow>
     parseField (join_fields fs @ [CHR ''\<newline>'']) inp dst = ((dst @ fs, None), inp)"
proof (induction fs arbitrary: dst rule: join_fields.induct)
  case 1
  then show ?case by simp
next
  case (2 f)
  then have pf: "CHR '','' \<notin> set f" "CHR 0x22 \<notin> set f" "CHR ''\<newline>'' \<notin> set f"
    by (auto dest: plain_field_set)
  let ?line = "f @ [CHR ''\<newline>'']"
  have hd: "hd ?line \<noteq> CHR 0x22" using pf by (cases f) auto
  have i: "IndexByte ?line (CHR '','') = None" using pf by (simp add: IndexByte_None)
  have q: "IndexByte f (CHR 0x22) = None" using pf by (simp add: IndexByte_None)
  show ?case
    using hd i q by (simp add: parseField.simps[of ?line] lengthNL_def)
next
  case (3 f g fs)
  then have pf: "CHR '','' \<notin> set f" "CHR 0x22 \<notin> set f" "CHR ''\<newline>'' \<notin> set f"
    by (auto dest: plain_field_set)
  let ?tail = "join_fields (g # fs) @ [CHR ''\<newline>'']"
  let ?line = "f @ CHR '','' # ?tail"
  have hd: "hd ?line \<noteq> CHR 0x22" using pf by (cases f) auto
  have i: "IndexByte ?line (CHR '','') = Some (length f)" using pf by (simp add: IndexByte_first)
  have q: "IndexByte f (CHR 0x22) = None" using pf by (simp add: IndexByte_None)
  from 3 have IH: "parseField ?tail inp (dst @ [f]) = (((dst @ [f]) @ g # fs, None), inp)"
    by simp
  show ?case
    using hd i q IH by (simp add: parseField.simps[of ?line])
qed


lemma Read_plain_row:
  assumes "plain_row fs" and "unread r = join_fields fs @ CHR ''\<newline>'' # rest"
  shows "Read r =
    ((fs, if 0 < FieldsPerRecord r \<and> length fs \<noteq> FieldsPerRecord r
          then Some ErrFieldCount else None),
     (if 0 < FieldsPerRecord r then r\<lparr>unread := rest\<rparr>
      else r\<lparr>unread := rest, FieldsPerRecord := length fs\<rparr>))"
proof -
  from assms(1) have p: "list_all plain_field fs" and ne: "join_fields fs \<noteq> []" and fne: "fs \<noteq> []"
    by (auto simp: plain_row_def)
  from join_fields_set[OF p] ne
  have nl: "nextLine (unread r) = ((join_fields fs @ [CHR ''\<newline>''], False), rest)"
    unfolding assms(2) by (intro nextLine_line) auto
  have pf: "parseField (join_fields fs @ [CHR ''\<newline>'']) rest [] = ((fs, None), rest)"
    using parseField_plain[OF p fne, of rest "[]"] by simp
  show ?thesis
    by (simp add: Read_def readRecord_def nl pf)
qed

lemma csv_text_Cons:
  "csv_text (fs # rows) @ tail = join_fields fs @ CHR ''\<newline>'' # (csv_text rows @ tail)"
  by (simp add: csv_text_def)

lemma records_read_plain_rows:
  "list_all plain_row rows \<Longrightarrow> 0 < FieldsPerRecord r \<Longrightarrow> unread r = csv_text rows @ tail \<Longrightarrow>
     records_read r =
       (if list_all (\<lambda>fs. length fs = FieldsPerRecord r) rows
        then rows @ records_read (r\<lparr>unread := tail\<rparr>)
        else takeWhile (\<lambda>fs. length fs = FieldsPerRecord r) rows)"
proof (induction rows arbitrary: r)
  case Nil
  then have "r\<lparr>unread := tail\<rparr> = r" by (simp add: csv_text_def)
  then show ?case by simp
next
  case (Cons fs rows)
  from Cons.prems have p: "plain_row fs" and ps: "list_all plain_row rows" by simp_all
  from Cons.prems(3) have u: "unread r = join_fields fs @ CHR ''\<newline>'' # (csv_text rows @ tail)"
    by (simp add: csv_text_Cons)
  note rd = Read_plain_row[OF p u]
  show ?case
  proof (cases "length fs = FieldsPerRecord r")
    case False
    with rd Cons.prems(2) show ?thesis by (simp add: records_read.simps[of r])
  next
    case True
    let ?r' = "r\<lparr>unread := csv_text rows @ tail\<rparr>"
    from Cons.prems(2) have "0 < FieldsPerRecord ?r'" and "unread ?r' = csv_text rows @ tail"
      by simp_all
    from Cons.IH[OF ps this] True rd Cons.prems(2) show ?thesis
      by (simp add: records_read.simps[of r])
  qed
qed

lemma csv_records_plain_rows:
  assumes "list_all plain_row rows"
  shows "csv_records (csv_text rows @ tail) =
       (if list_all (\<lambda>fs. length fs = length (hd rows)) rows
        then rows @ (if rows = [] then csv_records tail
                     else records_read \<lparr>unread = tail, FieldsPerRecord = length (hd rows)\<rparr>)
        else takeWhile (\<lambda>fs. length fs = length (hd rows)) rows)"
proof (cases rows)
  case Nil
  then show ?thesis by (simp add: csv_text_def)
next
  case (Cons fs rest)
  from assms Cons have p: "plain_row fs" and ps: "list_all plain_row rest" by simp_all
  let ?r = "NewReader (csv_text rows @ tail)"
  have u: "unread ?r = join_fields fs @ CHR ''\<newline>'' # (csv_text rest @ tail)"
    by (simp add: NewReader_def Cons csv_text_Cons)
  have rd: "Read ?r = ((fs, None),
       \<lparr>unread = csv_text rest @ tail, FieldsPerRecord = length fs\<rparr>)"
    using Read_plain_row[OF p u] by (simp add: NewReader_def)
  let ?r' = "\<lparr>unread = csv_text rest @ tail, FieldsPerRecord = length fs\<rparr>"
  from plain_row_nonempty[OF p] have "0 < FieldsPerRecord ?r'" by simp
  note tl = records_read_plain_rows[OF ps this, of tail]
  have "records_read ?r = fs # records_read ?r'"
    using rd by (subst records_read.simps) simp
  with tl Cons show ?thesis
    by (simp add: csv_records_def)
qed

lemma IndexByte_after:
  "c \<notin> set a \<Longrightarrow> IndexByte (a @ b) c = Some i \<Longrightarrow> length a \<le> i"
  by (induction a arbitrary: i) (auto split: if_splits)

lemma join_fields_snoc:
  "pre \<noteq> [] \<Longrightarrow> join_fields (pre @ [x]) = join_fields pre @ CHR '','' # x"
  by (induction pre rule: join_fields.induct) auto

lemma parseField_plain_prefix:
  "list_all plain_field pre \<Longrightarrow> pre \<noteq> [] \<Longrightarrow>
     parseField (join_fields pre @ CHR '','' # line') inp dst = parseField line' inp (dst @ pre)"
proof (induction pre arbitrary: dst rule: join_fields.induct)
  case 1
  then show ?case by simp
next
  case (2 f)
  then have pf: "CHR '','' \<notin> set f" "CHR 0x22 \<notin> set f"
    by (auto dest: plain_field_set)
  define line where "line = f @ CHR '','' # line'"
  have hd: "line = [] \<or> hd line \<noteq> CHR 0x22" using pf by (cases f) (auto simp: line_def)
  have i: "IndexByte line (CHR '','') = Some (length f)"
    using pf by (simp add: IndexByte_first line_def)
  have q: "IndexByte (take (length f) line) (CHR 0x22) = None"
    using pf by (simp add: IndexByte_None line_def)
  have d: "drop (Suc (length f)) line = line'" by (simp add: line_def)
  have "parseField line inp dst = parseField line' inp (dst @ [f])"
    using hd i q d by (simp add: parseField.simps[of line] line_def[symmetric])
       (simp add: line_def)
  then show ?case by (simp add: line_def)
next
  case (3 f g fs)
  then have pf: "CHR '','' \<notin> set f" "CHR 0x22 \<notin> set f"
    by (auto dest: plain_field_set)
  define tl where "tl = join_fields (g # fs) @ CHR '','' # line'"
  define line where "line = f @ CHR '','' # tl"
  have hd: "line = [] \<or> hd line \<noteq> CHR 0x22" using pf by (cases f) (auto simp: line_def)
  have i: "IndexByte line (CHR '','') = Some (length f)"
    using pf by (simp add: IndexByte_first line_def)
  have tk: "take (length f) line = f" by (simp add: line_def)
  have q: "IndexByte f (CHR 0x22) = None"
    using pf by (simp add: IndexByte_None)
  have d: "drop (Suc (length f)) line = tl" by (simp add: line_def)
  have "parseField line inp dst = parseField tl inp (dst @ [f])"
    using hd i q d tk by (simp add: parseField.simps[of line])
  moreover from 3 have "parseField tl inp (dst @ [f]) = parseField line' inp ((dst @ [f]) @ g # fs)"
    unfolding tl_def by simp
  ultimately show ?case by (simp add: line_def tl_def)
qed

lemma parseField_bare_quote:
  assumes "plain_field f" and "f \<noteq> []"
  shows "fst (parseField (f @ CHR 0x22 # g @ [CHR ''\<newline>'']) rest dst) = (dst, Some ErrBareQuote)"
proof -
  from plain_field_set[OF assms(1)]
  have pf: "CHR '','' \<notin> set f" "CHR 0x22 \<notin> set f"
    by simp_all
  define line where "line = f @ CHR 0x22 # g @ [CHR ''\<newline>'']"
  have hd: "line \<noteq> []" "hd line \<noteq> CHR 0x22"
    using pf assms(2) by (cases f; auto simp: line_def)+
  have whole: "CHR 0x22 \<in> set (take (length line - lengthNL line) line)"
    by (simp add: lengthNL_def line_def)
  have part: "CHR 0x22 \<in> set (take i line)" if "IndexByte line (CHR '','') = Some i" for i
  proof -
    have "line = (f @ [CHR 0x22]) @ (g @ [CHR ''\<newline>''])" by (simp add: line_def)
    moreover have "CHR '','' \<notin> set (f @ [CHR 0x22])" using pf by simp
    ultimately have "length (f @ [CHR 0x22]) \<le> i"
      using that IndexByte_after by metis
    then obtain k where "i - length f = Suc k" by (cases "i - length f") auto
    then show ?thesis by (simp add: line_def)
  qed
  have "fst (parseField line rest dst) = (dst, Some ErrBareQuote)"
  proof (cases "IndexByte line (CHR '','')")
    case None
    with hd IndexByte_mem[OF whole] show ?thesis
      by (simp add: parseField.simps[of line])
  next
    case (Some i)
    with hd IndexByte_mem[OF part[OF Some]] show ?thesis
      by (simp add: parseField.simps[of line])
  qed
  then show ?thesis by (simp add: line_def)
qed

lemma Read_bare_quote:
  assumes "list_all plain_field pre" and "plain_field f" and "f \<noteq> []"
    and "CHR ''\<newline>'' \<notin> set g" and "CHR 0x0D \<notin> set g"
    and "unread r = join_fields (pre @ [f @ CHR 0x22 # g]) @ CHR ''\<newline>'' # rest"
  shows "fst (Read r) = (pre, Some ErrBareQuote)"
proof -
  from plain_field_set[OF assms(2)]
  have pf: "CHR ''\<newline>'' \<notin> set f" "CHR 0x0D \<notin> set f"
    by simp_all
  define bad where "bad = f @ CHR 0x22 # g"
  define l where "l = join_fields (pre @ [bad])"
  have lne: "l \<noteq> []" and lnl: "CHR ''\<newline>'' \<notin> set l" and lcr: "CHR 0x0D \<notin> set l"
    using join_fields_set[OF assms(1)] pf assms(3,4,5)
    by (cases "pre = []"; auto simp: l_def bad_def join_fields_snoc)+
  have nl: "nextLine (unread r) = ((l @ [CHR ''\<newline>''], False), rest)"
    using nextLine_line[OF lnl lcr lne, of rest] assms(6) by (simp add: l_def bad_def)
  have "fst (parseField (l @ [CHR ''\<newline>'']) rest []) = (pre, Some ErrBareQuote)"
  proof (cases "pre = []")
    case True
    then show ?thesis
      using parseField_bare_quote[OF assms(2,3), of g rest "[]"] by (simp add: l_def bad_def)
  next
    case False
    then have "l @ [CHR ''\<newline>''] = join_fields pre @ CHR '','' # (f @ CHR 0x22 # g @ [CHR ''\<newline>''])"
      by (simp add: l_def bad_def join_fields_snoc)
    then show ?thesis
      using parseField_plain_prefix[OF assms(1) False, of "f @ CHR 0x22 # g @ [CHR ''\<newline>'']" rest "[]"]
        parseField_bare_quote[OF assms(2,3), of g rest pre] by simp
  qed
  then obtain rest' where "parseField (l @ [CHR ''\<newline>'']) rest [] = ((pre, Some ErrBareQuote), rest')"
    by (metis prod.collapse)
  then show ?thesis
    by (simp add: Read_def readRecord_def nl)
qed

lemma records_read_bare_quote:
  assumes "list_all plain_field pre" and "plain_field f" and "f \<noteq> []"
    and "CHR ''\<newline>'' \<notin> set g" and "CHR 0x0D \<notin> set g"
    and "unread r = join_fields (pre @ [f @ CHR 0x22 # g]) @ CHR ''\<newline>'' # rest"
  shows "records_read r = []"
  using Read_bare_quote[OF assms]
  by (auto simp add: records_read.simps[of r] split: prod.splits option.splits)

lemma one_plain_row:
  assumes "plain_row fs"
  shows "csv_records (join_fields fs @ ''\<newline>'') = [fs]"
proof -
  from assms have "list_all plain_row [fs]" by simp
  from csv_records_plain_rows[OF this, of "[]"] show ?thesis
    by (simp add: csv_text_def records_read_at_end)
qed

text \<open>
  C2, as the code has it.  The reader fixes the number of fields with the first record it
  returns, and every record it returns afterwards has that number.  A later row with
  another number of fields (a shorter one in particular) makes \<^verbatim>\<open>Read\<close> return the error
  \<^verbatim>\<open>ErrFieldCount\<close>, and a row with a quote inside an unquoted field makes it return
  \<^verbatim>\<open>ErrBareQuote\<close>; the row is not skipped.  Any error of \<^verbatim>\<open>Read\<close> ends the loop with the
  buffer as it is, whatever input is left.  So of a feed of plain rows exactly the rows
  before the first one whose number of fields differs from that of the first row are
  read, and of a feed with a misquoted row exactly the rows before it; no later row is
  rendered.  When the first record has at least 7 fields (or there is none) no read of a
  field faults and both renderers return their table.  A first record with fewer than 7
  fields is no error for the reader: the loop body processes it and the first read
  beyond its length panics.
\<close>

theorem scan_stops_at_bad_row_and_faults_iff_first_record_is_short:
  "(\<forall>rcd \<in> set (csv_records csv_content).
       length rcd = length (hd (csv_records csv_content)))
   \<and> (csv_records csv_content = [] \<or> 7 \<le> length (hd (csv_records csv_content)) \<longrightarrow>
        extract_active_problems csv_content =
          Inr (header_format
               @ concat (map body_row
                   (filter (\<lambda>rcd. rcd ! 3 = ''PROBLEM'') (csv_records csv_content)))
               @ ''</table>'')
      \<and> extract_resolved_problems csv_content =
          Inr (header_format
               @ concat (map body_row
                   (filter (\<lambda>rcd. rcd ! 3 = ''RESOLVED'') (csv_records csv_content)))
               @ ''</table>''))
   \<and> (csv_records csv_content \<noteq> [] \<and> length (hd (csv_records csv_content)) < 7 \<longrightarrow>
        extract_active_problems csv_content =
          Inl (IndexOutOfRange (max 3 (length (hd (csv_records csv_content))))
                 (length (hd (csv_records csv_content))))
      \<and> extract_resolved_problems csv_content =
          Inl (IndexOutOfRange (max 3 (length (hd (csv_records csv_content))))
                 (length (hd (csv_records csv_content)))))
   \<and> (Read csv_reader = ((rcd, Some err), csv_reader') \<longrightarrow>
        active_loop csv_reader result = Inr result
      \<and> resolved_loop csv_reader result = Inr result)
   \<and> (plain_row fs \<and> 0 < FieldsPerRecord r \<and> length fs \<noteq> FieldsPerRecord r
        \<and> unread r = join_fields fs @ CHR ''\<newline>'' # rest \<longrightarrow>
        fst (Read r) = (fs, Some ErrFieldCount))
   \<and> (list_all plain_field pre \<and> plain_field f \<and> f \<noteq> []
        \<and> CHR ''\<newline>'' \<notin> set g \<and> CHR 0x0D \<notin> set g
        \<and> unread r = join_fields (pre @ [f @ CHR 0x22 # g]) @ CHR ''\<newline>'' # rest \<longrightarrow>
        fst (Read r) = (pre, Some ErrBareQuote))
   \<and> (list_all plain_row rows \<longrightarrow>
        csv_records (csv_text rows) =
          takeWhile (\<lambda>fs. length fs = length (hd rows)) rows)
   \<and> (list_all plain_row rows \<and> list_all (\<lambda>fs. length fs = length (hd rows)) rows
        \<and> list_all plain_field pre \<and> plain_field f \<and> f \<noteq> []
        \<and> CHR ''\<newline>'' \<notin> set g \<and> CHR 0x0D \<notin> set g \<longrightarrow>
        csv_records
          (csv_text rows @ join_fields (pre @ [f @ CHR 0x22 # g]) @ CHR ''\<newline>'' # rest)
        = rows)"
proof -
  let ?rs = "csv_records csv_content"
  have same: "\<forall>rcd \<in> set ?rs. length rcd = length (hd ?rs)"
    by (rule csv_records_same_length)
  note fsf = find_short_first[OF same]
  have long: "?rs = [] \<or> 7 \<le> length (hd ?rs) \<Longrightarrow>
      find (\<lambda>rcd. length rcd < 7) ?rs = None"
    using fsf by (simp split: if_splits)
  have short: "?rs \<noteq> [] \<and> length (hd ?rs) < 7 \<Longrightarrow>
      find (\<lambda>rcd. length rcd < 7) ?rs = Some (hd ?rs)"
    using fsf by simp
  have c2: "?rs = [] \<or> 7 \<le> length (hd ?rs) \<longrightarrow>
        extract_active_problems csv_content =
          Inr (header_format
               @ concat (map body_row (filter (\<lambda>rcd. rcd ! 3 = ''PROBLEM'') ?rs))
               @ ''</table>'')
      \<and> extract_resolved_problems csv_content =
          Inr (header_format
               @ concat (map body_row (filter (\<lambda>rcd. rcd ! 3 = ''RESOLVED'') ?rs))
               @ ''</table>'')"
  proof
    assume "?rs = [] \<or> 7 \<le> length (hd ?rs)"
    from long[OF this] show "extract_active_problems csv_content =
          Inr (header_format
               @ concat (map body_row (filter (\<lambda>rcd. rcd ! 3 = ''PROBLEM'') ?rs))
               @ ''</table>'')
      \<and> extract_resolved_problems csv_content =
          Inr (header_format
               @ concat (map body_row (filter (\<lambda>rcd. rcd ! 3 = ''RESOLVED'') ?rs))
               @ ''</table>'')"
      by (simp add: extract_active_closed extract_resolved_closed render_status_table_def)
  qed
  have c3: "?rs \<noteq> [] \<and> length (hd ?rs) < 7 \<longrightarrow>
        extract_active_problems csv_content =
          Inl (IndexOutOfRange (max 3 (length (hd ?rs))) (length (hd ?rs)))
      \<and> extract_resolved_problems csv_content =
          Inl (IndexOutOfRange (max 3 (length (hd ?rs))) (length (hd ?rs)))"
  proof
    assume "?rs \<noteq> [] \<and> length (hd ?rs) < 7"
    from short[OF this] show "extract_active_problems csv_content =
          Inl (IndexOutOfRange (max 3 (length (hd ?rs))) (length (hd ?rs)))
      \<and> extract_resolved_problems csv_content =
          Inl (IndexOutOfRange (max 3 (length (hd ?rs))) (length (hd ?rs)))"
      by (simp add: extract_active_closed extract_resolved_closed render_status_table_def)
  qed
  have c4: "Read csv_reader = ((rcd, Some err), csv_reader') \<longrightarrow>
        active_loop csv_reader result = Inr result
      \<and> resolved_loop csv_reader result = Inr result"
    by (simp add: active_loop.simps[of csv_reader] resolved_loop.simps[of csv_reader])
  have c5: "plain_row fs \<and> 0 < FieldsPerRecord r \<and> length fs \<noteq> FieldsPerRecord r
          \<and> unread r = join_fields fs @ CHR ''\<newline>'' # rest \<longrightarrow>
          fst (Read r) = (fs, Some ErrFieldCount)"
  proof
    assume a: "plain_row fs \<and> 0 < FieldsPerRecord r \<and> length fs \<noteq> FieldsPerRecord r
          \<and> unread r = join_fields fs @ CHR ''\<newline>'' # rest"
    then have "plain_row fs" and "unread r = join_fields fs @ CHR ''\<newline>'' # rest" by simp_all
    from Read_plain_row[OF this] a show "fst (Read r) = (fs, Some ErrFieldCount)" by simp
  qed
  have c6: "list_all plain_field pre \<and> plain_field f \<and> f \<noteq> []
        \<and> CHR ''\<newline>'' \<notin> set g \<and> CHR 0x0D \<notin> set g
        \<and> unread r = join_fields (pre @ [f @ CHR 0x22 # g]) @ CHR ''\<newline>'' # rest \<longrightarrow>
        fst (Read r) = (pre, Some ErrBareQuote)"
  proof
    assume a: "list_all plain_field pre \<and> plain_field f \<and> f \<noteq> []
        \<and> CHR ''\<newline>'' \<notin> set g \<and> CHR 0x0D \<notin> set g
        \<and> unread r = join_fields (pre @ [f @ CHR 0x22 # g]) @ CHR ''\<newline>'' # rest"
    show "fst (Read r) = (pre, Some ErrBareQuote)"
      by (rule Read_bare_quote[of pre f g r rest]) (use a in simp_all)
  qed
  have c7: "list_all plain_row rows \<longrightarrow>
        csv_records (csv_text rows) =
          takeWhile (\<lambda>fs. length fs = length (hd rows)) rows"
  proof
    assume p: "list_all plain_row rows"
    have e: "csv_records [] = []"
      unfolding csv_records_def by (rule records_read_at_end) (simp add: NewReader_def)
    have e': "records_read \<lparr>unread = [], FieldsPerRecord = length (hd rows)\<rparr> = []"
      by (rule records_read_at_end) simp
    note cr = csv_records_plain_rows[OF p, of "[]"]
    show "csv_records (csv_text rows) =
          takeWhile (\<lambda>fs. length fs = length (hd rows)) rows"
    proof (cases "list_all (\<lambda>fs. length fs = length (hd rows)) rows")
      case True
      have tw: "takeWhile (\<lambda>fs. length fs = length (hd rows)) rows = rows"
        by (rule takeWhile_eq_all_conv[THEN iffD2]) (use True in \<open>simp only: list_all_iff\<close>)
      have "csv_records (csv_text rows @ []) =
          rows @ (if rows = [] then csv_records []
                  else records_read \<lparr>unread = [], FieldsPerRecord = length (hd rows)\<rparr>)"
        using cr True by (simp only: if_True)
      also have "\<dots> = rows"
        by (simp only: e e' if_cancel append_Nil2)
      finally show ?thesis
        by (simp only: tw append_Nil2)
    next
      case False
      with cr show ?thesis by (simp only: if_False append_Nil2)
    qed
  qed
  have c8: "list_all plain_row rows \<and> list_all (\<lambda>fs. length fs = length (hd rows)) rows
          \<and> list_all plain_field pre \<and> plain_field f \<and> f \<noteq> []
          \<and> CHR ''\<newline>'' \<notin> set g \<and> CHR 0x0D \<notin> set g \<longrightarrow>
          csv_records
            (csv_text rows @ join_fields (pre @ [f @ CHR 0x22 # g]) @ CHR ''\<newline>'' # rest)
          = rows"
  proof
    assume a: "list_all plain_row rows \<and> list_all (\<lambda>fs. length fs = length (hd rows)) rows
          \<and> list_all plain_field pre \<and> plain_field f \<and> f \<noteq> []
          \<and> CHR ''\<newline>'' \<notin> set g \<and> CHR 0x0D \<notin> set g"
    define tail where "tail = join_fields (pre @ [f @ CHR 0x22 # g]) @ CHR ''\<newline>'' # rest"
    have bad: "records_read r = []" if "unread r = tail" for r
      by (rule records_read_bare_quote[of pre f g r rest]) (use a that in \<open>simp_all add: tail_def\<close>)
    have e: "csv_records tail = []"
      unfolding csv_records_def by (rule bad) (simp add: NewReader_def)
    have e': "records_read \<lparr>unread = tail, FieldsPerRecord = length (hd rows)\<rparr> = []"
      by (rule bad) simp
    from a have p: "list_all plain_row rows"
      and all: "list_all (\<lambda>fs. length fs = length (hd rows)) rows" by simp_all
    have "csv_records (csv_text rows @ tail) = rows"
      unfolding csv_records_plain_rows[OF p, of tail] using all e e' by simp
    then show "csv_records
            (csv_text rows @ join_fields (pre @ [f @ CHR 0x22 # g]) @ CHR ''\<newline>'' # rest)
          = rows"
      by (simp add: tail_def)
  qed
  show ?thesis
    by (intro conjI same c2 c3 c4 c5 c6 c7 c8)
qed

theorem scan_stops_at_bad_row_and_faults_iff_first_record_is_short_witness:
  "extract_active_problems stop_csv =
      Inr (header_format @ ''<tr><td>h1</td><td>p1</td><td>t</td><td>d1</td></tr>\<newline></table>'')
   \<and> extract_resolved_problems stop_csv = Inr (header_format @ ''</table>'')
   \<and> extract_active_problems short_csv = Inl (IndexOutOfRange 4 4)
   \<and> extract_resolved_problems short_csv = Inl (IndexOutOfRange 4 4)
   \<and> active_loop (NewReader ''a,b\"c\<newline>s,t,r,PROBLEM,h,p,d\<newline>'') ''<table>'' = Inr ''<table>''
   \<and> resolved_loop (NewReader ''a,b\"c\<newline>s,t,r,PROBLEM,h,p,d\<newline>'') ''<table>'' = Inr ''<table>''
   \<and> fst (Read \<lparr>unread = ''s,t,r,PROBLEM\<newline>s,t,r,PROBLEM,h3,p3,d3\<newline>'', FieldsPerRecord = 7\<rparr>)
       = ([''s'', ''t'', ''r'', ''PROBLEM''], Some ErrFieldCount)
   \<and> fst (Read \<lparr>unread = ''s,t\"r,PROBLEM,h,p,d\<newline>s,t,r,PROBLEM,h3,p3,d3\<newline>'',
                 FieldsPerRecord = 7\<rparr>)
       = ([''s''], Some ErrBareQuote)
   \<and> csv_text stop_rows = stop_csv
   \<and> csv_records stop_csv = [[''s'', ''t'', ''r'', ''PROBLEM'', ''h1'', ''p1'', ''d1'']]
   \<and> csv_records ''s,t,r,PROBLEM,h1,p1,d1\<newline>s,t\"r,PROBLEM,h,p,d\<newline>s,t,r,PROBLEM,h3,p3,d3\<newline>''
       = [[''s'', ''t'', ''r'', ''PROBLEM'', ''h1'', ''p1'', ''d1'']]"
proof -
  note claim = scan_stops_at_bad_row_and_faults_iff_first_record_is_short
  let ?bad = "NewReader ''a,b\"c\<newline>s,t,r,PROBLEM,h,p,d\<newline>''"
  have "fst (Read ?bad) = ([''a''], Some ErrBareQuote)"
    by code_simp
  then have c: "Read ?bad = (([''a''], Some ErrBareQuote), snd (Read ?bad))"
    by (metis prod.collapse)
  from claim[where csv_reader = ?bad and result = "''<table>''"] c
  have 5: "active_loop ?bad ''<table>'' = Inr ''<table>''"
    and 6: "resolved_loop ?bad ''<table>'' = Inr ''<table>''"
    by blast+
  have same_text: "csv_text stop_rows = stop_csv"
    by (simp add: csv_text_def stop_rows_def stop_csv_def)
  have plain: "list_all plain_row stop_rows"
    by (simp add: stop_rows_def plain_row_def plain_field_def)
  from claim[where rows = stop_rows] plain
  have "csv_records (csv_text stop_rows) =
          takeWhile (\<lambda>fs. length fs = length (hd stop_rows)) stop_rows"
    by blast
  then have recs: "csv_records stop_csv = [[''s'', ''t'', ''r'', ''PROBLEM'', ''h1'', ''p1'', ''d1'']]"
    unfolding same_text by (simp add: stop_rows_def)
  have a: "csv_records stop_csv = [] \<or> 7 \<le> length (hd (csv_records stop_csv))"
    by (simp add: recs)
  have b: "csv_records short_csv \<noteq> [] \<and> length (hd (csv_records short_csv)) < 7"
    by (simp add: short_records)
  from claim[where csv_content = stop_csv] a
  have 1: "extract_active_problems stop_csv =
          Inr (header_format
               @ concat (map body_row
                   (filter (\<lambda>rcd. rcd ! 3 = ''PROBLEM'') (csv_records stop_csv)))
               @ ''</table>'')"
    and 2: "extract_resolved_problems stop_csv =
          Inr (header_format
               @ concat (map body_row
                   (filter (\<lambda>rcd. rcd ! 3 = ''RESOLVED'') (csv_records stop_csv)))
               @ ''</table>'')"
    by blast+
  from claim[where csv_content = short_csv] b
  have 3: "extract_active_problems short_csv =
          Inl (IndexOutOfRange (max 3 (length (hd (csv_records short_csv))))
                 (length (hd (csv_records short_csv))))"
    and 4: "extract_resolved_problems short_csv =
          Inl (IndexOutOfRange (max 3 (length (hd (csv_records short_csv))))
                 (length (hd (csv_records short_csv))))"
    by blast+
  let ?rest = "''s,t,r,PROBLEM,h3,p3,d3\<newline>''"
  let ?r7 = "\<lparr>unread = ''s,t,r,PROBLEM\<newline>s,t,r,PROBLEM,h3,p3,d3\<newline>'', FieldsPerRecord = 7\<rparr>"
  let ?short = "[''s'', ''t'', ''r'', ''PROBLEM'']"
  have h7: "plain_row ?short \<and> 0 < FieldsPerRecord ?r7 \<and> length ?short \<noteq> FieldsPerRecord ?r7
      \<and> unread ?r7 = join_fields ?short @ CHR ''\<newline>'' # ?rest"
    by (simp add: plain_row_def plain_field_def)
  from claim[where fs = ?short and r = ?r7 and rest = ?rest] h7
  have 7: "fst (Read ?r7) = (?short, Some ErrFieldCount)"
    by blast
  let ?rq = "\<lparr>unread = ''s,t\"r,PROBLEM,h,p,d\<newline>s,t,r,PROBLEM,h3,p3,d3\<newline>'',
                 FieldsPerRecord = 7\<rparr>"
  let ?g = "''r,PROBLEM,h,p,d''"
  have hq: "list_all plain_field [''s''] \<and> plain_field ''t'' \<and> ''t'' \<noteq> []
        \<and> CHR ''\<newline>'' \<notin> set ?g \<and> CHR 0x0D \<notin> set ?g"
    by (simp add: plain_field_def)
  have uq: "unread ?rq = join_fields ([''s''] @ [''t'' @ CHR 0x22 # ?g]) @ CHR ''\<newline>'' # ?rest"
    by simp
  from claim[where pre = "[''s'']" and f = "''t''" and g = ?g and r = ?rq and rest = ?rest] hq uq
  have 8: "fst (Read ?rq) = ([''s''], Some ErrBareQuote)"
    by blast
  let ?one = "[[''s'', ''t'', ''r'', ''PROBLEM'', ''h1'', ''p1'', ''d1'']]"
  have h9: "list_all plain_row ?one \<and> list_all (\<lambda>fs. length fs = length (hd ?one)) ?one"
    by (simp add: plain_row_def plain_field_def)
  from claim[where rows = ?one and pre = "[''s'']" and f = "''t''" and g = ?g and rest = ?rest] h9 hq
  have "csv_records
          (csv_text ?one @ join_fields ([''s''] @ [''t'' @ CHR 0x22 # ?g]) @ CHR ''\<newline>'' # ?rest)
        = ?one"
    by blast
  then have 9: "csv_records ''s,t,r,PROBLEM,h1,p1,d1\<newline>s,t\"r,PROBLEM,h,p,d\<newline>s,t,r,PROBLEM,h3,p3,d3\<newline>''
       = ?one"
    by (simp add: csv_text_def)
  show ?thesis
    unfolding 1 2 3 4 5 6 7 8 9 same_text recs
    by (simp add: short_records body_row_def)
qed

text \<open>
  C2 as stated fails: a first row of three fields is returned by \<^verbatim>\<open>Read\<close> with no error,
  and the read of \<^verbatim>\<open>record[3]\<close> panics in both renderers.
\<close>

theorem short_first_record_counterexample:
  "fst (Read (NewReader ''a,b,c\<newline>'')) = ([''a'', ''b'', ''c''], None)
   \<and> extract_active_problems ''a,b,c\<newline>'' = Inl (IndexOutOfRange 3 3)
   \<and> extract_resolved_problems ''a,b,c\<newline>'' = Inl (IndexOutOfRange 3 3)"
  by code_simp

lemma header_format_cells:
  "header_format = ''<table>'' @ header_row [''Host'', ''Problem'', ''Time'', ''Duratiom'']"
  by (simp add: header_format_def header_row_def)

text \<open>
  C7, as the code has it.  For every input in which every record read has at least 7
  fields, and for both renderers, the output is the opening table tag, one header row of
  four centred cells of which the first three read Host, Problem and Time, the body rows
  of the matching records, and the closing table tag.  The header is the same text in
  both renderers and for every input.  (On the other inputs the renderer panics and
  there is no output; what the fourth header cell reads is left open here.)
\<close>

theorem table_structure:
  "\<exists>fourth. \<forall>csv_content.
     (\<forall>rcd \<in> set (csv_records csv_content). 7 \<le> length rcd) \<longrightarrow>
       extract_active_problems csv_content =
         Inr (''<table>'' @ header_row [''Host'', ''Problem'', ''Time'', fourth]
              @ concat (map body_row
                  (filter (\<lambda>rcd. rcd ! 3 = ''PROBLEM'') (csv_records csv_content)))
              @ ''</table>'')
     \<and> extract_resolved_problems csv_content =
         Inr (''<table>'' @ header_row [''Host'', ''Problem'', ''Time'', fourth]
              @ concat (map body_row
                  (filter (\<lambda>rcd. rcd ! 3 = ''RESOLVED'') (csv_records csv_content)))
              @ ''</table>'')"
proof (intro exI allI impI)
  fix csv_content
  assume "\<forall>rcd \<in> set (csv_records csv_content). 7 \<le> length rcd"
  then have "find (\<lambda>rcd. length rcd < 7) (csv_records csv_content) = None"
    by (auto simp: find_None_iff)
  then show "extract_active_problems csv_content =
         Inr (''<table>'' @ header_row [''Host'', ''Problem'', ''Time'', ''Duratiom'']
              @ concat (map body_row
                  (filter (\<lambda>rcd. rcd ! 3 = ''PROBLEM'') (csv_records csv_content)))
              @ ''</table>'')
     \<and> extract_resolved_problems csv_content =
         Inr (''<table>'' @ header_row [''Host'', ''Problem'', ''Time'', ''Duratiom'']
              @ concat (map body_row
                  (filter (\<lambda>rcd. rcd ! 3 = ''RESOLVED'') (csv_records csv_content)))
              @ ''</table>'')"
    unfolding extract_active_closed extract_resolved_closed render_status_table_def
      header_format_cells by simp
qed

theorem table_structure_witness:
  "\<exists>fourth.
     extract_active_problems example_csv =
       Inr (''<table>'' @ header_row [''Host'', ''Problem'', ''Time'', fourth]
            @ ''<tr><td>host1</td><td>disk full</td><td>2024-01-01T00:00</td><td>1h</td></tr>\<newline>''
            @ ''</table>'')
   \<and> extract_resolved_problems example_csv =
       Inr (''<table>'' @ header_row [''Host'', ''Problem'', ''Time'', fourth]
            @ ''<tr><td>host2</td><td>cpu high</td><td>2024-01-01T01:00</td><td>2h</td></tr>\<newline>''
            @ ''</table>'')"
proof -
  have h: "\<forall>rcd \<in> set (csv_records example_csv). 7 \<le> length rcd"
    by (simp add: example_records)
  from table_structure obtain fourth where
    "\<forall>csv_content.
     (\<forall>rcd \<in> set (csv_records csv_content). 7 \<le> length rcd) \<longrightarrow>
       extract_active_problems csv_content =
         Inr (''<table>'' @ header_row [''Host'', ''Problem'', ''Time'', fourth]
              @ concat (map body_row
                  (filter (\<lambda>rcd. rcd ! 3 = ''PROBLEM'') (csv_records csv_content)))
              @ ''</table>'')
     \<and> extract_resolved_problems csv_content =
         Inr (''<table>'' @ header_row [''Host'', ''Problem'', ''Time'', fourth]
              @ concat (map body_row
                  (filter (\<lambda>rcd. rcd ! 3 = ''RESOLVED'') (csv_records csv_content)))
              @ ''</table>'')"
    by blast
  with h have "extract_active_problems example_csv =
         Inr (''<table>'' @ header_row [''Host'', ''Problem'', ''Time'', fourth]
              @ concat (map body_row
                  (filter (\<lambda>rcd. rcd ! 3 = ''PROBLEM'') (csv_records example_csv)))
              @ ''</table>'')
     \<and> extract_resolved_problems example_csv =
         Inr (''<table>'' @ header_row [''Host'', ''Problem'', ''Time'', fourth]
              @ concat (map body_row
                  (filter (\<lambda>rcd. rcd ! 3 = ''RESOLVED'') (csv_records example_csv)))
              @ ''</table>'')"
    by blast
  then show ?thesis
    by (intro exI[of _ fourth]) (simp add: example_records body_row_def)
qed

text \<open>
  C7 as stated fails: for an input whose first record has one field neither renderer
  produces a table; both panic at the read of \<^verbatim>\<open>record[3]\<close>.
\<close>

theorem no_table_for_one_field_counterexample:
  "extract_active_problems ''x'' = Inl (IndexOutOfRange 3 1)
   \<and> extract_resolved_problems ''x'' = Inl (IndexOutOfRange 3 1)"
  by code_simp

text \<open>
  C8, as the code has it.  In the output for an input in which every record read has at
  least 7 fields, the body rows are, in order, one row for every record whose field 3 is
  the renderer's status, and such a row is exactly four cells holding field 4 (host),
  field 5 (description), field 1 (time) and field 6 (duration) of that record, in this
  order.  In particular a feed of one plain row with the fields severity, time, recovery
  time, status, host, problem, duration and any further columns is rendered as the header
  and the one row of host, problem, time and duration, whatever the further columns hold.
  (A matching record with fewer than 7 fields is not rendered: the renderer panics.)
\<close>

theorem matching_record_is_rendered_as_four_cells:
  "((\<forall>rcd \<in> set (csv_records csv_content). 7 \<le> length rcd) \<longrightarrow>
      extract_active_problems csv_content =
        Inr (header_format
             @ concat (map (\<lambda>rcd. ''<tr><td>'' @ rcd ! 4 @ ''</td><td>'' @ rcd ! 5
                               @ ''</td><td>'' @ rcd ! 1 @ ''</td><td>'' @ rcd ! 6
                               @ ''</td></tr>\<newline>'')
                 (filter (\<lambda>rcd. rcd ! 3 = ''PROBLEM'') (csv_records csv_content)))
             @ ''</table>'')
    \<and> extract_resolved_problems csv_content =
        Inr (header_format
             @ concat (map (\<lambda>rcd. ''<tr><td>'' @ rcd ! 4 @ ''</td><td>'' @ rcd ! 5
                               @ ''</td><td>'' @ rcd ! 1 @ ''</td><td>'' @ rcd ! 6
                               @ ''</td></tr>\<newline>'')
                 (filter (\<lambda>rcd. rcd ! 3 = ''RESOLVED'') (csv_records csv_content)))
             @ ''</table>''))
   \<and> (plain_row (severity # time # recovery # status # host # problem # duration # extra) \<longrightarrow>
        (status = ''PROBLEM'' \<longrightarrow>
           extract_active_problems
             (join_fields (severity # time # recovery # status # host # problem # duration # extra)
                @ ''\<newline>'')
           = Inr (header_format
                  @ ''<tr><td>'' @ host @ ''</td><td>'' @ problem @ ''</td><td>'' @ time
                  @ ''</td><td>'' @ duration @ ''</td></tr>\<newline>'' @ ''</table>''))
      \<and> (status = ''RESOLVED'' \<longrightarrow>
           extract_resolved_problems
             (join_fields (severity # time # recovery # status # host # problem # duration # extra)
                @ ''\<newline>'')
           = Inr (header_format
                  @ ''<tr><td>'' @ host @ ''</td><td>'' @ problem @ ''</td><td>'' @ time
                  @ ''</td><td>'' @ duration @ ''</td></tr>\<newline>'' @ ''</table>'')))"
proof (intro conjI impI)
  assume "\<forall>rcd \<in> set (csv_records csv_content). 7 \<le> length rcd"
  then have none: "find (\<lambda>rcd. length rcd < 7) (csv_records csv_content) = None"
    by (auto simp: find_None_iff)
  have row: "body_row = (\<lambda>rcd. ''<tr><td>'' @ rcd ! 4 @ ''</td><td>'' @ rcd ! 5
                               @ ''</td><td>'' @ rcd ! 1 @ ''</td><td>'' @ rcd ! 6
                               @ ''</td></tr>\<newline>'')"
    by (rule ext) (simp add: body_row_def)
  from none show "extract_active_problems csv_content =
        Inr (header_format
             @ concat (map (\<lambda>rcd. ''<tr><td>'' @ rcd ! 4 @ ''</td><td>'' @ rcd ! 5
                               @ ''</td><td>'' @ rcd ! 1 @ ''</td><td>'' @ rcd ! 6
                               @ ''</td></tr>\<newline>'')
                 (filter (\<lambda>rcd. rcd ! 3 = ''PROBLEM'') (csv_records csv_content)))
             @ ''</table>'')"
    unfolding row[symmetric]
    by (simp add: extract_active_closed render_status_table_def)
  from none show "extract_resolved_problems csv_content =
        Inr (header_format
             @ concat (map (\<lambda>rcd. ''<tr><td>'' @ rcd ! 4 @ ''</td><td>'' @ rcd ! 5
                               @ ''</td><td>'' @ rcd ! 1 @ ''</td><td>'' @ rcd ! 6
                               @ ''</td></tr>\<newline>'')
                 (filter (\<lambda>rcd. rcd ! 3 = ''RESOLVED'') (csv_records csv_content)))
             @ ''</table>'')"
    unfolding row[symmetric]
    by (simp add: extract_resolved_closed render_status_table_def)
next
  let ?fs = "severity # time # recovery # status # host # problem # duration # extra"
  assume p: "plain_row ?fs" and st: "status = ''PROBLEM''"
  from one_plain_row[OF p] st
  show "extract_active_problems (join_fields ?fs @ ''\<newline>'')
           = Inr (header_format
                  @ ''<tr><td>'' @ host @ ''</td><td>'' @ problem @ ''</td><td>'' @ time
                  @ ''</td><td>'' @ duration @ ''</td></tr>\<newline>'' @ ''</table>'')"
    by (simp add: extract_active_closed render_status_table_def body_row_def)
next
  let ?fs = "severity # time # recovery # status # host # problem # duration # extra"
  assume p: "plain_row ?fs" and st: "status = ''RESOLVED''"
  from one_plain_row[OF p] st
  show "extract_resolved_problems (join_fields ?fs @ ''\<newline>'')
           = Inr (header_format
                  @ ''<tr><td>'' @ host @ ''</td><td>'' @ problem @ ''</td><td>'' @ time
                  @ ''</td><td>'' @ duration @ ''</td></tr>\<newline>'' @ ''</table>'')"
    by (simp add: extract_resolved_closed render_status_table_def body_row_def)
qed

theorem matching_record_is_rendered_as_four_cells_witness:
  "extract_active_problems ''sev,t,rt,PROBLEM,h,p,d,ack,actions,tags\<newline>''
     = Inr (header_format @ ''<tr><td>h</td><td>p</td><td>t</td><td>d</td></tr>\<newline></table>'')
   \<and> extract_resolved_problems ''sev,t,rt,RESOLVED,h,p,d,ack,actions,tags\<newline>''
     = Inr (header_format @ ''<tr><td>h</td><td>p</td><td>t</td><td>d</td></tr>\<newline></table>'')
   \<and> extract_active_problems example_csv =
       Inr (header_format
            @ ''<tr><td>host1</td><td>disk full</td><td>2024-01-01T00:00</td><td>1h</td></tr>\<newline></table>'')
   \<and> extract_resolved_problems example_csv =
       Inr (header_format
            @ ''<tr><td>host2</td><td>cpu high</td><td>2024-01-01T01:00</td><td>2h</td></tr>\<newline></table>'')"
proof -
  note claim = matching_record_is_rendered_as_four_cells
  have pa: "plain_row (wide_row ''PROBLEM'')" and pb: "plain_row (wide_row ''RESOLVED'')"
    by (simp_all add: wide_row_def plain_row_def plain_field_def)
  from claim[where severity = "''sev''" and time = "''t''" and recovery = "''rt''"
      and status = "''PROBLEM''" and host = "''h''" and problem = "''p''"
      and duration = "''d''" and extra = "[''ack'', ''actions'', ''tags'']"] pa
  have 1: "extract_active_problems ''sev,t,rt,PROBLEM,h,p,d,ack,actions,tags\<newline>''
     = Inr (header_format @ ''<tr><td>h</td><td>p</td><td>t</td><td>d</td></tr>\<newline></table>'')"
    by (simp add: wide_row_def)
  from claim[where severity = "''sev''" and time = "''t''" and recovery = "''rt''"
      and status = "''RESOLVED''" and host = "''h''" and problem = "''p''"
      and duration = "''d''" and extra = "[''ack'', ''actions'', ''tags'']"] pb
  have 2: "extract_resolved_problems ''sev,t,rt,RESOLVED,h,p,d,ack,actions,tags\<newline>''
     = Inr (header_format @ ''<tr><td>h</td><td>p</td><td>t</td><td>d</td></tr>\<newline></table>'')"
    by (simp add: wide_row_def)
  have h: "\<forall>rcd \<in> set (csv_records example_csv). 7 \<le> length rcd"
    by (simp add: example_records)
  from claim[where csv_content = example_csv] h
  have 3: "extract_active_problems example_csv =
        Inr (header_format
             @ concat (map (\<lambda>rcd. ''<tr><td>'' @ rcd ! 4 @ ''</td><td>'' @ rcd ! 5
                               @ ''</td><td>'' @ rcd ! 1 @ ''</td><td>'' @ rcd ! 6
                               @ ''</td></tr>\<newline>'')
                 (filter (\<lambda>rcd. rcd ! 3 = ''PROBLEM'') (csv_records example_csv)))
             @ ''</table>'')"
    and 4: "extract_resolved_problems example_csv =
        Inr (header_format
             @ concat (map (\<lambda>rcd. ''<tr><td>'' @ rcd ! 4 @ ''</td><td>'' @ rcd ! 5
                               @ ''</td><td>'' @ rcd ! 1 @ ''</td><td>'' @ rcd ! 6
                               @ ''</td></tr>\<newline>'')
                 (filter (\<lambda>rcd. rcd ! 3 = ''RESOLVED'') (csv_records example_csv)))
             @ ''</table>'')"
    by blast+
  show ?thesis
    unfolding 1 2 3 4 by (simp add: example_records)
qed

text \<open>
  C8 as stated fails: the only record of this input has the status \<^verbatim>\<open>RESOLVED\<close> and five
  fields.  It has no description and no duration, no row is rendered for it, and the
  read of \<^verbatim>\<open>record[5]\<close> panics.
\<close>

theorem resolved_record_of_five_fields_counterexample:
  "extract_resolved_problems ''sev,time,rtime,RESOLVED,host2'' = Inl (IndexOutOfRange 5 5)"
  by code_simp

text \<open>
  C9: for the empty input both renderers return exactly the header row between the
  opening and the closing table tag, with no body row.
\<close>

theorem empty_csv_gives_empty_table:
  "extract_active_problems [] =
     Inr ''<table><tr><td style=\"text-align: center;\">Host</td><td style=\"text-align: center;\">Problem</td><td style=\"text-align: center;\">Time</td><td style=\"text-align: center;\">Duratiom</td></tr>\<newline></table>''
   \<and> extract_resolved_problems [] =
     Inr ''<table><tr><td style=\"text-align: center;\">Host</td><td style=\"text-align: center;\">Problem</td><td style=\"text-align: center;\">Time</td><td style=\"text-align: center;\">Duratiom</td></tr>\<newline></table>''"
  by code_simp

text \<open>
  C10: both renderers are instances of the one function \<^const>\<open>render_status_table\<close>,
  which takes the status as a parameter and uses it only in the comparison with field 3.
\<close>

theorem renderers_are_one_function:
  "extract_active_problems csv_content = render_status_table csv_content ''PROBLEM''
   \<and> extract_resolved_problems csv_content = render_status_table csv_content ''RESOLVED''"
  by (simp add: extract_active_closed extract_resolved_closed)

section \<open>Properties of the login and of the process\<close>

lemma Sprintf_no_verb_wrong: 
  "Sprintf ''wrong credentials, server responded didn't return the session cookie\<newline>'' [] =
    ''wrong credentials, server responded didn't return the session cookie\<newline>''"
  by simp

lemma Sprintf_no_verb_missing: 
  "Sprintf ''server didn't return a session cookie\<newline>'' [] =
    ''server didn't return a session cookie\<newline>''"
  by simp

lemma cookie_loop_find:
  "cookie_loop cookies = find (\<lambda>cookie. Name cookie = ''zbx_session'') cookies"
  by (induction cookies) simp_all

lemma zabbix_login_unfold:
  "zabbix_login w zabbix_url uname pass =
     (case url_Parse_error w (zabbix_url @ ''/index.php'') of
        Some err \<Rightarrow>
          Inl (Exit (Sprintf ''failed to build the login request, error: %s\<newline>'' [err])
                 ExitCodeErrorLoginRequestBuilder)
      | None \<Rightarrow>
          (case client_Do w login_client (login_request zabbix_url uname pass) of
             Inl err \<Rightarrow>
               Inl (Exit (Sprintf ''failed to login, error: %s\<newline>'' [err])
                      ExitCodeErrorLoginRequest)
           | Inr response \<Rightarrow>
               if StatusCode response \<noteq> 302
               then Inl (Exit ''wrong credentials, server responded didn't return the session cookie\<newline>''
                           ExitCodeErrorWrongCredentials)
               else (case find (\<lambda>cookie. Name cookie = ''zbx_session'') (Cookies response) of
                       Some cookie \<Rightarrow> Inr cookie
                     | None \<Rightarrow>
                         Inl (Exit ''server didn't return a session cookie\<newline>''
                                ExitCodeErrorMissingCookie))))"
  unfolding zabbix_login_def NewRequest_def Header_Set_def login_request_def login_client_def
    Let_def StatusFound_def Sprintf_no_verb_wrong Sprintf_no_verb_missing cookie_loop_find
  by (simp split: option.splits sum.splits)

lemma zabbix_export_csv_unfold:
  "zabbix_export_csv w zabbix_url session_cookie =
     (case url_Parse_error w (zabbix_url @ ''/zabbix.php?action=problem.view.csv'') of
        Some err \<Rightarrow>
          Inl (Exit (Sprintf ''failed to build the export CSV request, error: %s\<newline>'' [err])
                 ExitCodeErrorExportRequestBuilder)
      | None \<Rightarrow>
          (case client_Do w export_client (export_request zabbix_url session_cookie) of
             Inl err \<Rightarrow>
               Inl (Exit (Sprintf ''failed to export the CSV, error: %s\<newline>'' [err])
                      ExitCodeErrorExportRequest)
           | Inr response \<Rightarrow> Inr (ResponseBody response)))"
  unfolding zabbix_export_csv_def NewRequest_def AddCookie_def export_request_def
    export_client_def Let_def
  by (simp split: option.splits sum.splits)

lemma renderers_panic_together:
  "(\<exists>p. extract_resolved_problems csv_content = Inl p)
     \<longleftrightarrow> (\<exists>p. extract_active_problems csv_content = Inl p)"
  by (simp add: extract_active_closed extract_resolved_closed render_status_table_def
        split: option.splits)

text \<open>
  C4: when the response to the login request has a status other than 302, \<^verbatim>\<open>zabbix_login\<close>
  ends the process with the diagnostic of wrong credentials and the exit code
  \<^verbatim>\<open>ExitCodeErrorWrongCredentials\<close>, and returns no cookie.  When it returns a cookie, the
  client did not follow redirects and the response it got had the status 302.
\<close>

theorem login_without_redirect_fails:
  "(url_Parse_error w (zabbix_url @ ''/index.php'') = None
      \<and> client_Do w login_client (login_request zabbix_url uname pass) = Inr response
      \<and> StatusCode response \<noteq> 302 \<longrightarrow>
    zabbix_login w zabbix_url uname pass =
      Inl (Exit ''wrong credentials, server responded didn't return the session cookie\<newline>''
             ExitCodeErrorWrongCredentials))
   \<and> (zabbix_login w zabbix_url uname pass = Inr cookie \<longrightarrow>
        CheckRedirect login_client = UseLastResponse
        \<and> (\<exists>response.
              client_Do w login_client (login_request zabbix_url uname pass) = Inr response
              \<and> StatusCode response = 302))"
  unfolding zabbix_login_unfold
  by (auto simp: login_client_def split: option.splits sum.splits if_splits)

theorem login_without_redirect_fails_witness:
  "zabbix_login world_200 ''http://zbx.example'' ''alice'' ''p@ss word'' =
      Inl (Exit ''wrong credentials, server responded didn't return the session cookie\<newline>'' 5)
   \<and> zabbix_login world_302 ''http://zbx.example'' ''alice'' ''p@ss word'' =
      Inr \<lparr>Name = ''zbx_session'', Value = ''abc123''\<rparr>
   \<and> (\<exists>response.
        client_Do world_302 login_client
          (login_request ''http://zbx.example'' ''alice'' ''p@ss word'') = Inr response
        \<and> StatusCode response = 302)"
proof -
  have a: "url_Parse_error world_200 (''http://zbx.example'' @ ''/index.php'') = None
      \<and> client_Do world_200 login_client
            (login_request ''http://zbx.example'' ''alice'' ''p@ss word'')
          = Inr \<lparr>StatusCode = 200, Cookies = [], ResponseBody = ''<html>error</html>''\<rparr>
      \<and> StatusCode \<lparr>StatusCode = 200, Cookies = [], ResponseBody = ''<html>error</html>''\<rparr> \<noteq> 302"
    by (simp add: world_200_def)
  have b: "zabbix_login world_302 ''http://zbx.example'' ''alice'' ''p@ss word'' =
      Inr \<lparr>Name = ''zbx_session'', Value = ''abc123''\<rparr>"
    by (simp add: zabbix_login_unfold world_302_def login_request_def)
  from login_without_redirect_fails[of world_200 "''http://zbx.example''" "''alice''"
      "''p@ss word''" "\<lparr>StatusCode = 200, Cookies = [], ResponseBody = ''<html>error</html>''\<rparr>"] a
  have 1: "zabbix_login world_200 ''http://zbx.example'' ''alice'' ''p@ss word'' =
      Inl (Exit ''wrong credentials, server responded didn't return the session cookie\<newline>''
             ExitCodeErrorWrongCredentials)"
    by blast
  from login_without_redirect_fails[of world_302 "''http://zbx.example''" "''alice''"
      "''p@ss word''" _ "\<lparr>Name = ''zbx_session'', Value = ''abc123''\<rparr>"] b
  have 2: "\<exists>response.
        client_Do world_302 login_client
          (login_request ''http://zbx.example'' ''alice'' ''p@ss word'') = Inr response
        \<and> StatusCode response = 302"
    by blast
  from 1 b 2 show ?thesis by (simp add: ExitCodeErrorWrongCredentials_def)
qed

text \<open>
  C5: when the response to the login request has the status 302, \<^verbatim>\<open>zabbix_login\<close> returns
  the first cookie of the response named \<^verbatim>\<open>zbx_session\<close>; when there is none it ends the
  process with the diagnostic of the missing cookie and the exit code
  \<^verbatim>\<open>ExitCodeErrorMissingCookie\<close>, which differs from that of wrong credentials.
\<close>

theorem login_redirect_takes_first_session_cookie:
  "url_Parse_error w (zabbix_url @ ''/index.php'') = None
     \<and> client_Do w login_client (login_request zabbix_url uname pass) = Inr response
     \<and> StatusCode response = 302 \<longrightarrow>
   zabbix_login w zabbix_url uname pass =
     (case find (\<lambda>cookie. Name cookie = ''zbx_session'') (Cookies response) of
        Some cookie \<Rightarrow> Inr cookie
      | None \<Rightarrow>
          Inl (Exit ''server didn't return a session cookie\<newline>'' ExitCodeErrorMissingCookie))
   \<and> ExitCodeErrorMissingCookie \<noteq> ExitCodeErrorWrongCredentials"
  unfolding zabbix_login_unfold
  by (simp add: ExitCodeErrorMissingCookie_def ExitCodeErrorWrongCredentials_def)

theorem login_redirect_takes_first_session_cookie_witness:
  "zabbix_login world_302 ''http://zbx.example'' ''alice'' ''p@ss word'' =
      Inr \<lparr>Name = ''zbx_session'', Value = ''abc123''\<rparr>
   \<and> zabbix_login world_no_cookie ''http://zbx.example'' ''alice'' ''p@ss word'' =
      Inl (Exit ''server didn't return a session cookie\<newline>'' 7)"
proof -
  let ?r1 = "\<lparr>StatusCode = 302,
                   Cookies = [\<lparr>Name = ''PHPSESSID'', Value = ''x''\<rparr>,
                              \<lparr>Name = ''zbx_session'', Value = ''abc123''\<rparr>,
                              \<lparr>Name = ''zbx_session'', Value = ''later''\<rparr>],
                   ResponseBody = []\<rparr>"
  let ?r2 = "\<lparr>StatusCode = 302, Cookies = [\<lparr>Name = ''PHPSESSID'', Value = ''x''\<rparr>],
              ResponseBody = []\<rparr>"
  have a: "url_Parse_error world_302 (''http://zbx.example'' @ ''/index.php'') = None
     \<and> client_Do world_302 login_client
           (login_request ''http://zbx.example'' ''alice'' ''p@ss word'') = Inr ?r1
     \<and> StatusCode ?r1 = 302"
    by (simp add: world_302_def login_request_def)
  have b: "url_Parse_error world_no_cookie (''http://zbx.example'' @ ''/index.php'') = None
     \<and> client_Do world_no_cookie login_client
           (login_request ''http://zbx.example'' ''alice'' ''p@ss word'') = Inr ?r2
     \<and> StatusCode ?r2 = 302"
    by (simp add: world_no_cookie_def)
  from login_redirect_takes_first_session_cookie[of world_302 "''http://zbx.example''"
      "''alice''" "''p@ss word''" ?r1] a
  have 1: "zabbix_login world_302 ''http://zbx.example'' ''alice'' ''p@ss word'' =
     (case find (\<lambda>cookie. Name cookie = ''zbx_session'') (Cookies ?r1) of
        Some cookie \<Rightarrow> Inr cookie
      | None \<Rightarrow>
          Inl (Exit ''server didn't return a session cookie\<newline>'' ExitCodeErrorMissingCookie))"
    by blast
  from login_redirect_takes_first_session_cookie[of world_no_cookie "''http://zbx.example''"
      "''alice''" "''p@ss word''" ?r2] b
  have 2: "zabbix_login world_no_cookie ''http://zbx.example'' ''alice'' ''p@ss word'' =
     (case find (\<lambda>cookie. Name cookie = ''zbx_session'') (Cookies ?r2) of
        Some cookie \<Rightarrow> Inr cookie
      | None \<Rightarrow>
          Inl (Exit ''server didn't return a session cookie\<newline>'' ExitCodeErrorMissingCookie))"
    by blast
  show ?thesis unfolding 1 2 by (simp add: ExitCodeErrorMissingCookie_def)
qed

lemma hex_digit: "\<forall>n \<in> {0..<16}. ishex (upperhex ! n) \<and> unhex (upperhex ! n) = n"
  by code_simp

lemma unreserved_plain: "\<not> shouldEscape c \<Longrightarrow> c \<noteq> CHR ''%'' \<and> c \<noteq> CHR ''+'' \<and> c \<noteq> CHR ''&'' \<and> c \<noteq> CHR ''=''"
  by (auto simp: shouldEscape_def)

lemma QueryUnescape_escape_byte:
  "QueryUnescape (escape_byte c @ s) = map_option ((#) c) (QueryUnescape s)"
proof -
  let ?n = "of_char c :: nat"
  have "?n < 256" by simp
  then have lt: "?n div 16 < 16" "?n mod 16 < 16"
    by arith+
  from hex_digit lt have h: "ishex (upperhex ! (?n div 16))" "unhex (upperhex ! (?n div 16)) = ?n div 16"
    "ishex (upperhex ! (?n mod 16))" "unhex (upperhex ! (?n mod 16)) = ?n mod 16"
    by auto
  have rt: "char_of (?n div 16 * 16 + ?n mod 16) = c" by simp
  show ?thesis
  proof (cases "c = CHR '' ''")
    case True
    then show ?thesis by (simp add: escape_byte_def)
  next
    case False
    show ?thesis
    proof (cases "shouldEscape c")
      case True
      with False h rt show ?thesis by (simp add: escape_byte_def)
    next
      case ns: False
      with False unreserved_plain[OF ns] show ?thesis by (simp add: escape_byte_def)
    qed
  qed
qed

lemma QueryUnescape_QueryEscape: "QueryUnescape (QueryEscape s) = Some s"
  unfolding QueryEscape_def
  by (induction s) (simp_all add: QueryUnescape_escape_byte del: QueryUnescape.simps(2))

lemma sorted_login_keys:
  "sort [''name'', ''password'', ''enter''] = [''enter'', ''name'', ''password'']"
  by code_simp

lemma QueryEscape_literals:
  "QueryEscape ''name'' = ''name''" "QueryEscape ''password'' = ''password''"
  "QueryEscape ''enter'' = ''enter''" "QueryEscape ''Sign in'' = ''Sign+in''"
  by code_simp+

lemma login_form_body_closed:
  "login_form_body uname pass =
     ''enter=Sign+in&name='' @ QueryEscape (QueryEscape uname)
       @ ''&password='' @ QueryEscape (QueryEscape pass)"
  by (simp add: login_form_body_def Values_Encode_def Let_def sorted_login_keys
        QueryEscape_literals)

lemma escape_byte_no_separator:
  "CHR ''&'' \<notin> set (escape_byte c) \<and> CHR ''='' \<notin> set (escape_byte c)"
proof -
  let ?n = "of_char c :: nat"
  have "?n < 256" by simp
  then have lt: "?n div 16 < 16" "?n mod 16 < 16"
    by arith+
  have "\<forall>n \<in> {0..<16}. upperhex ! n \<noteq> CHR ''&'' \<and> upperhex ! n \<noteq> CHR ''=''"
    by code_simp
  with lt have "upperhex ! (?n div 16) \<noteq> CHR ''&''" "upperhex ! (?n div 16) \<noteq> CHR ''=''"
    "upperhex ! (?n mod 16) \<noteq> CHR ''&''" "upperhex ! (?n mod 16) \<noteq> CHR ''=''"
    by auto
  then show ?thesis
    using unreserved_plain[of c] by (auto simp: escape_byte_def)
qed

lemma QueryEscape_no_separator:
  "CHR ''&'' \<notin> set (QueryEscape s)" "CHR ''='' \<notin> set (QueryEscape s)"
  using escape_byte_no_separator by (auto simp: QueryEscape_def)

lemma Split_last: "sep \<notin> set a \<Longrightarrow> Split sep a = [a]"
  by (induction a) auto

lemma Split_append: "sep \<notin> set a \<Longrightarrow> Split sep (a @ sep # b) = a # Split sep b"
  by (induction a) auto

lemma Cut_append: "sep \<notin> set a \<Longrightarrow> Cut sep (a @ sep # b) = (a, b)"
  by (induction a) auto

lemma decode_login_form_body:
  "decode_form (login_form_body uname pass) =
     Some [(''enter'', ''Sign in''), (''name'', QueryEscape uname),
           (''password'', QueryEscape pass)]"
proof -
  let ?u = "QueryEscape (QueryEscape uname)" and ?p = "QueryEscape (QueryEscape pass)"
  have s1: "Split (CHR ''&'') (''enter=Sign+in'' @ CHR ''&'' # (''name='' @ ?u) @ CHR ''&'' # (''password='' @ ?p))
      = [''enter=Sign+in'', ''name='' @ ?u, ''password='' @ ?p]"
    by (subst Split_append, simp)
       (subst Split_append, simp add: QueryEscape_no_separator,
        subst Split_last, simp_all add: QueryEscape_no_separator)
  have c1: "Cut (CHR ''='') (''enter'' @ CHR ''='' # ''Sign+in'') = (''enter'', ''Sign+in'')"
    by (rule Cut_append) simp
  have c2: "Cut (CHR ''='') (''name'' @ CHR ''='' # ?u) = (''name'', ?u)"
    by (rule Cut_append) simp
  have c3: "Cut (CHR ''='') (''password'' @ CHR ''='' # ?p) = (''password'', ?p)"
    by (rule Cut_append) simp
  have u: "QueryUnescape ''enter'' = Some ''enter''" "QueryUnescape ''Sign+in'' = Some ''Sign in''"
    "QueryUnescape ''name'' = Some ''name''" "QueryUnescape ''password'' = Some ''password''"
    by code_simp+
  have body: "login_form_body uname pass =
      ''enter=Sign+in'' @ CHR ''&'' # (''name='' @ ?u) @ CHR ''&'' # (''password='' @ ?p)"
    by (simp add: login_form_body_closed)
  show ?thesis
    unfolding decode_form_def body s1
    using c1 c2 c3 u
    by (simp add: QueryUnescape_QueryEscape del: QueryUnescape.simps Cut.simps)
qed

text \<open>
  C3 does not hold of the code: the user name and the password are escaped by
  \<^verbatim>\<open>url.QueryEscape\<close> and then once more by \<^verbatim>\<open>form.Encode()\<close>.  Decoding the body that is sent
  therefore yields the three fields name, password and enter, but name and password
  carry the escaped user name and password, not the given ones.  For the password
  \<^verbatim>\<open>p@ss word\<close> of the end-to-end scenario the server receives \<^verbatim>\<open>p%40ss+word\<close>.
\<close>

theorem login_body_is_escaped_twice:
  "decode_form (login_form_body uname pass) =
     Some [(''enter'', ''Sign in''), (''name'', QueryEscape uname),
           (''password'', QueryEscape pass)]
   \<and> login_form_body ''alice'' ''p@ss word''
       = ''enter=Sign+in&name=alice&password=p%2540ss%2Bword''
   \<and> decode_form (login_form_body ''alice'' ''p@ss word'') =
       Some [(''enter'', ''Sign in''), (''name'', ''alice''), (''password'', ''p%40ss+word'')]"
proof (intro conjI)
  show "decode_form (login_form_body uname pass) =
     Some [(''enter'', ''Sign in''), (''name'', QueryEscape uname),
           (''password'', QueryEscape pass)]"
    by (rule decode_login_form_body)
next
  show "login_form_body ''alice'' ''p@ss word''
       = ''enter=Sign+in&name=alice&password=p%2540ss%2Bword''"
    by code_simp
next
  show "decode_form (login_form_body ''alice'' ''p@ss word'') =
       Some [(''enter'', ''Sign in''), (''name'', ''alice''), (''password'', ''p%40ss+word'')]"
    by code_simp
qed

text \<open>
  C6: the nine exit codes are the numbers 0 to 8, so no two are equal and only success
  is 0; and the exit status of the process is the code of the first stage that fails, in
  the order in which the program runs them: reading the configuration, decoding it,
  building the login request, sending it, the status of the response, the session
  cookie, building the export request, sending it.  When no stage fails the status is 0,
  unless a renderer panics, which is outside these codes.
\<close>

theorem exit_code_identifies_the_stage:
  "[ExitCodeSuccess, ExitCodeErrorOpeningConfig, ExitCodeErrorDeserializingConfig,
    ExitCodeErrorLoginRequestBuilder, ExitCodeErrorLoginRequest,
    ExitCodeErrorWrongCredentials, ExitCodeErrorExportRequestBuilder,
    ExitCodeErrorMissingCookie, ExitCodeErrorExportRequest] = [0, 1, 2, 3, 4, 5, 6, 7, 8]
   \<and> exit_status (main w) =
     (case os_ReadFile w config_filename of
        Inl err \<Rightarrow> Some ExitCodeErrorOpeningConfig
      | Inr config_content \<Rightarrow>
     (case yaml_Unmarshal w config_content of
        Inl err \<Rightarrow> Some ExitCodeErrorDeserializingConfig
      | Inr config \<Rightarrow>
     (case url_Parse_error w (ZabbixUrl config @ ''/index.php'') of
        Some err \<Rightarrow> Some ExitCodeErrorLoginRequestBuilder
      | None \<Rightarrow>
     (case client_Do w login_client
             (login_request (ZabbixUrl config) (ZabbixUsername config) (ZabbixPassword config)) of
        Inl err \<Rightarrow> Some ExitCodeErrorLoginRequest
      | Inr response \<Rightarrow>
          if StatusCode response \<noteq> 302 then Some ExitCodeErrorWrongCredentials
          else
     (case find (\<lambda>cookie. Name cookie = ''zbx_session'') (Cookies response) of
        None \<Rightarrow> Some ExitCodeErrorMissingCookie
      | Some session_cookie \<Rightarrow>
     (case url_Parse_error w (ZabbixUrl config @ ''/zabbix.php?action=problem.view.csv'') of
        Some err \<Rightarrow> Some ExitCodeErrorExportRequestBuilder
      | None \<Rightarrow>
     (case client_Do w export_client (export_request (ZabbixUrl config) session_cookie) of
        Inl err \<Rightarrow> Some ExitCodeErrorExportRequest
      | Inr export_response \<Rightarrow>
     (case extract_active_problems (ResponseBody export_response) of
        Inl p \<Rightarrow> None
      | Inr table \<Rightarrow> Some ExitCodeSuccess))))))))"
proof
  show "[ExitCodeSuccess, ExitCodeErrorOpeningConfig, ExitCodeErrorDeserializingConfig,
    ExitCodeErrorLoginRequestBuilder, ExitCodeErrorLoginRequest,
    ExitCodeErrorWrongCredentials, ExitCodeErrorExportRequestBuilder,
    ExitCodeErrorMissingCookie, ExitCodeErrorExportRequest] = [0, 1, 2, 3, 4, 5, 6, 7, 8]"
    by (simp add: ExitCodeSuccess_def ExitCodeErrorOpeningConfig_def
          ExitCodeErrorDeserializingConfig_def ExitCodeErrorLoginRequestBuilder_def
          ExitCodeErrorLoginRequest_def ExitCodeErrorWrongCredentials_def
          ExitCodeErrorExportRequestBuilder_def ExitCodeErrorMissingCookie_def
          ExitCodeErrorExportRequest_def)
next
  show "exit_status (main w) =
     (case os_ReadFile w config_filename of
        Inl err \<Rightarrow> Some ExitCodeErrorOpeningConfig
      | Inr config_content \<Rightarrow>
     (case yaml_Unmarshal w config_content of
        Inl err \<Rightarrow> Some ExitCodeErrorDeserializingConfig
      | Inr config \<Rightarrow>
     (case url_Parse_error w (ZabbixUrl config @ ''/index.php'') of
        Some err \<Rightarrow> Some ExitCodeErrorLoginRequestBuilder
      | None \<Rightarrow>
     (case client_Do w login_client
             (login_request (ZabbixUrl config) (ZabbixUsername config) (ZabbixPassword config)) of
        Inl err \<Rightarrow> Some ExitCodeErrorLoginRequest
      | Inr response \<Rightarrow>
          if StatusCode response \<noteq> 302 then Some ExitCodeErrorWrongCredentials
          else
     (case find (\<lambda>cookie. Name cookie = ''zbx_session'') (Cookies response) of
        None \<Rightarrow> Some ExitCodeErrorMissingCookie
      | Some session_cookie \<Rightarrow>
     (case url_Parse_error w (ZabbixUrl config @ ''/zabbix.php?action=problem.view.csv'') of
        Some err \<Rightarrow> Some ExitCodeErrorExportRequestBuilder
      | None \<Rightarrow>
     (case client_Do w export_client (export_request (ZabbixUrl config) session_cookie) of
        Inl err \<Rightarrow> Some ExitCodeErrorExportRequest
      | Inr export_response \<Rightarrow>
     (case extract_active_problems (ResponseBody export_response) of
        Inl p \<Rightarrow> None
      | Inr table \<Rightarrow> Some ExitCodeSuccess))))))))"
  proof (cases "os_ReadFile w config_filename")
    case (Inl err)
    then show ?thesis by (simp add: main_def load_config_def)
  next
    case rf: (Inr config_content)
    show ?thesis
    proof (cases "yaml_Unmarshal w config_content")
      case (Inl err)
      with rf show ?thesis by (simp add: main_def load_config_def)
    next
      case um: (Inr config)
      from rf um have lc: "load_config w = Inr config" by (simp add: load_config_def)
      show ?thesis
      proof (cases "url_Parse_error w (ZabbixUrl config @ ''/index.php'')")
        case (Some err)
        with rf um lc show ?thesis by (simp add: main_def zabbix_login_unfold)
      next
        case lu: None
        show ?thesis
        proof (cases "client_Do w login_client
             (login_request (ZabbixUrl config) (ZabbixUsername config) (ZabbixPassword config))")
          case (Inl err)
          with rf um lc lu show ?thesis by (simp add: main_def zabbix_login_unfold)
        next
          case ld: (Inr response)
          show ?thesis
          proof (cases "StatusCode response \<noteq> 302")
            case True
            with rf um lc lu ld show ?thesis by (simp add: main_def zabbix_login_unfold)
          next
            case st: False
            show ?thesis
            proof (cases "find (\<lambda>cookie. Name cookie = ''zbx_session'') (Cookies response)")
              case None
              with rf um lc lu ld st show ?thesis by (simp add: main_def zabbix_login_unfold)
            next
              case ck: (Some session_cookie)
              from lu ld st ck have zl: "zabbix_login w (ZabbixUrl config) (ZabbixUsername config)
                  (ZabbixPassword config) = Inr session_cookie"
                by (simp add: zabbix_login_unfold)
              show ?thesis
              proof (cases "url_Parse_error w
                  (ZabbixUrl config @ ''/zabbix.php?action=problem.view.csv'')")
                case (Some err)
                with rf um lc lu ld st ck zl show ?thesis
                  by (simp add: main_def zabbix_export_csv_unfold)
              next
                case eu: None
                show ?thesis
                proof (cases "client_Do w export_client
                    (export_request (ZabbixUrl config) session_cookie)")
                  case (Inl err)
                  with rf um lc lu ld st ck zl eu show ?thesis
                    by (simp add: main_def zabbix_export_csv_unfold)
                next
                  case ed: (Inr export_response)
                  from eu ed have ze: "zabbix_export_csv w (ZabbixUrl config) session_cookie
                      = Inr (ResponseBody export_response)"
                    by (simp add: zabbix_export_csv_unfold)
                  from rf um lc lu ld st ck zl eu ed ze show ?thesis
                    using renderers_panic_together[of "ResponseBody export_response"]
                    by (auto simp add: main_def Let_def split: sum.splits)
                qed
              qed
            qed
          qed
        qed
      qed
    qed
  qed
qed

end
